theory Spec2Isabelle
  imports Main "HOL-Library.Char_ord" "HOL-Library.List_Lexorder"
begin

section \<open>Containers and values of the Qt library\<close>

text \<open>
  A \<^verbatim>\<open>QMap\<close> is kept as the list of its entries in the order of the keys, the order
  in which the map is iterated. \<open>qmap_insert\<close> is \<^verbatim>\<open>map[key] = value\<close>: a new entry
  is put at its place, the value of an existing key is replaced.
\<close>

fun qmap_insert :: "'k::linorder \<Rightarrow> 'v \<Rightarrow> ('k \<times> 'v) list \<Rightarrow> ('k \<times> 'v) list" where
  "qmap_insert k v [] = [(k, v)]"
| "qmap_insert k v ((k', v') # m) =
     (if k < k' then (k, v) # (k', v') # m
      else if k = k' then (k, v) # m
      else (k', v') # qmap_insert k v m)"

definition qmap_contains :: "('k \<times> 'v) list \<Rightarrow> 'k \<Rightarrow> bool" where
  "qmap_contains m k = (map_of m k \<noteq> None)"

definition qmap_keys :: "('k \<times> 'v) list \<Rightarrow> 'k list" where
  "qmap_keys m = map fst m"

definition qmap_values :: "('k \<times> 'v) list \<Rightarrow> 'v list" where
  "qmap_values m = map snd m"

definition qmap_remove :: "'k \<Rightarrow> ('k \<times> 'v) list \<Rightarrow> ('k \<times> 'v) list" where
  "qmap_remove k m = filter (\<lambda>e. fst e \<noteq> k) m"

text \<open>
  JSON values as \<^verbatim>\<open>QJsonValue\<close> has them. \<open>JUndefined\<close> is what a lookup that finds
  nothing returns. An object is the list of its members.
\<close>

datatype json =
    JUndefined
  | JNull
  | JBool bool
  | JInt int
  | JString string
  | JArray "json list"
  | JObject "(string \<times> json) list"

text \<open>
  \<^verbatim>\<open>toObject()\<close>, \<^verbatim>\<open>toArray()\<close>, \<^verbatim>\<open>toString()\<close>: the empty default when the value
  is of another kind.
\<close>

fun toObject :: "json \<Rightarrow> (string \<times> json) list" where
  "toObject (JObject members) = members"
| "toObject _ = []"

fun toArray :: "json \<Rightarrow> json list" where
  "toArray (JArray elements) = elements"
| "toArray _ = []"

fun toString :: "json \<Rightarrow> string" where
  "toString (JString s) = s"
| "toString _ = []"

text \<open>\<^verbatim>\<open>toInt()\<close>: the number when it fits a 32-bit \<^verbatim>\<open>int\<close>, else the default 0.\<close>

fun toInt :: "json \<Rightarrow> int" where
  "toInt (JInt n) = (if - 2147483648 \<le> n \<and> n \<le> 2147483647 then n else 0)"
| "toInt _ = 0"

text \<open>\<^verbatim>\<open>value[key]\<close>, that is \<^verbatim>\<open>toObject().value(key)\<close>.\<close>

definition jget :: "json \<Rightarrow> string \<Rightarrow> json" where
  "jget v key = (case map_of (toObject v) key of None \<Rightarrow> JUndefined | Some x \<Rightarrow> x)"

text \<open>
  The parts of a path as \<^verbatim>\<open>QFileInfo\<close> and \<^verbatim>\<open>QDir\<close> take it apart, with \<open>/\<close> as
  the separator: the file name is what follows the last separator; the suffix is what
  follows the last dot of the file name; the complete base name is the file name up to
  that dot; the directory is what precedes the last separator (less one trailing
  separator), \<open>.\<close> when the path has no separator and \<open>/\<close> when its only separator
  is its first character.
\<close>

definition fileName :: "string \<Rightarrow> string" where
  "fileName p = rev (takeWhile (\<lambda>c. c \<noteq> CHR ''/'') (rev p))"

definition suffix_of :: "string \<Rightarrow> string" where
  "suffix_of p =
     (let fn = fileName p
      in if CHR ''.'' \<in> set fn then rev (takeWhile (\<lambda>c. c \<noteq> CHR ''.'') (rev fn)) else [])"

definition completeBaseName :: "string \<Rightarrow> string" where
  "completeBaseName p =
     (let fn = fileName p
      in if CHR ''.'' \<in> set fn then rev (tl (dropWhile (\<lambda>c. c \<noteq> CHR ''.'') (rev fn))) else fn)"

definition dir_of :: "string \<Rightarrow> string" where
  "dir_of p =
     (if CHR ''/'' \<notin> set p then ''.''
      else (let d = rev (tl (dropWhile (\<lambda>c. c \<noteq> CHR ''/'') (rev p)))
            in if d = [] then ''/''
               else if length d > 1 \<and> last d = CHR ''/'' then butlast d else d))"

text \<open>\<^verbatim>\<open>QDir::filePath\<close>: the name of a file in the directory.\<close>

definition filePath :: "string \<Rightarrow> string \<Rightarrow> string" where
  "filePath d fn =
     (if fn \<noteq> [] \<and> hd fn = CHR ''/'' then fn
      else if fn = [] then d
      else if d = [] \<or> last d = CHR ''/'' then d @ fn
      else d @ ''/'' @ fn)"

text \<open>\<^verbatim>\<open>QString::startsWith\<close> and \<^verbatim>\<open>QString::endsWith\<close>.\<close>

definition startsWith :: "string \<Rightarrow> string \<Rightarrow> bool" where
  "startsWith s p = (take (length p) s = p)"

definition endsWith :: "string \<Rightarrow> string \<Rightarrow> bool" where
  "endsWith s e = (length e \<le> length s \<and> drop (length s - length e) s = e)"

section \<open>Icon directory reconciliation (IconList)\<close>

text \<open>
  \<^verbatim>\<open>IconList\<close> keeps a list of icons, some of which are backed by a file of the icon
  directory. The declaration of \<^verbatim>\<open>MMCIcon\<close> is not part of the sources at hand; the
  records below carry the members that \<^verbatim>\<open>IconList.cpp\<close> reads: the key, the name and
  one image per icon type, with its file name and whether it is present, which is what
  \<^verbatim>\<open>has(type)\<close> answers. The icon types are those that \<^verbatim>\<open>IconList.cpp\<close> names.
\<close>

datatype IconType = Builtin | FileBased | ToBeDeleted

record MMCImage =
  filename :: string
  present :: bool

record MMCIcon =
  m_key :: string
  m_name :: string
  m_images :: "IconType \<Rightarrow> MMCImage"

definition has :: "MMCIcon \<Rightarrow> IconType \<Rightarrow> bool" where
  "has it t = present (m_images it t)"

text \<open>\<^verbatim>\<open>toStringSet\<close>: the \<^verbatim>\<open>QSet\<close> of the elements of a list.\<close>

definition toStringSet :: "string list \<Rightarrow> string set" where
  "toStringSet list = set list"

text \<open>
  The loop of \<^verbatim>\<open>directoryChanged\<close> that collects the file names of the icons that
  have a file-based image; icons without one are passed over.
\<close>

fun currentSet :: "MMCIcon list \<Rightarrow> string set" where
  "currentSet [] = {}"
| "currentSet (it # rest) =
     (if \<not> has it FileBased then currentSet rest
      else insert (filename (m_images it FileBased)) (currentSet rest))"

text \<open>
  The two differences of \<^verbatim>\<open>directoryChanged\<close>, from the icon list and the list of
  file paths that \<^verbatim>\<open>getIconFilePaths\<close> has just returned.
\<close>

definition toRemove :: "MMCIcon list \<Rightarrow> string list \<Rightarrow> string set" where
  "toRemove icons newFileNamesList = currentSet icons - toStringSet newFileNamesList"

definition toAdd :: "MMCIcon list \<Rightarrow> string list \<Rightarrow> string set" where
  "toAdd icons newFileNamesList = toStringSet newFileNamesList - currentSet icons"

subsection \<open>Watching the icon directory\<close>

text \<open>
  A directory as \<^verbatim>\<open>QDir\<close> shows it to \<^verbatim>\<open>addPathRecursively\<close>: its path, whether
  \<^verbatim>\<open>exists()\<close> holds, and the subdirectories that \<^verbatim>\<open>entryInfoList\<close> lists.
\<close>

datatype fsdir = FsDir (dpath: string) (dexists: bool) (dentries: "fsdir list")

text \<open>
  \<^verbatim>\<open>QFileSystemWatcher::addPath\<close>: the path is added, and true returned, when the
  system accepts the path and the watcher does not monitor it already; otherwise the
  watcher is unchanged and the answer is false. The watcher is the list of the paths
  it monitors; \<open>accept\<close> says which paths the system lets it register.
\<close>

definition addPath :: "(string \<Rightarrow> bool) \<Rightarrow> string list \<Rightarrow> string \<Rightarrow> bool \<times> string list" where
  "addPath accept watcher path =
     (if accept path \<and> path \<notin> set watcher then (True, watcher @ [path]) else (False, watcher))"

text \<open>
  \<^verbatim>\<open>IconList::addPathRecursively\<close>. \<open>addEntries\<close> is its loop over the
  subdirectories, with the local \<^verbatim>\<open>watching\<close> as an argument.
\<close>

fun addPathRecursively :: "(string \<Rightarrow> bool) \<Rightarrow> fsdir \<Rightarrow> string list \<Rightarrow> bool \<times> string list"
  and addEntries :: "(string \<Rightarrow> bool) \<Rightarrow> fsdir list \<Rightarrow> bool \<Rightarrow> string list \<Rightarrow> bool \<times> string list"
  where
  "addPathRecursively accept (FsDir path ex entries) watcher =
     (if \<not> ex then (False, watcher)
      else (case addPath accept watcher path of
              (watching, watcher') \<Rightarrow> addEntries accept entries watching watcher'))"
| "addEntries accept [] watching watcher = (watching, watcher)"
| "addEntries accept (entry # entries) watching watcher =
     (case addPathRecursively accept entry watcher of
        (r, watcher') \<Rightarrow> addEntries accept entries (if r then True else watching) watcher')"

record IconList =
  m_icons :: "MMCIcon list"
  m_watcher :: "string list"
  m_isWatching :: bool

text \<open>
  \<^verbatim>\<open>IconList::startWatching\<close>; \<open>root\<close> is the icon directory as it stands after
  \<^verbatim>\<open>FS::ensureFolderPathExists\<close>.
\<close>

definition startWatching :: "(string \<Rightarrow> bool) \<Rightarrow> fsdir \<Rightarrow> IconList \<Rightarrow> IconList" where
  "startWatching accept root s =
     (case addPathRecursively accept root (m_watcher s) of
        (watching, watcher') \<Rightarrow> s\<lparr>m_watcher := watcher', m_isWatching := watching\<rparr>)"

text \<open>
  The paths that a traversal tries to register: a directory that exists, and what its
  subdirectories contribute. A directory that does not exist contributes nothing, its
  subdirectories included.
\<close>

fun visited :: "fsdir \<Rightarrow> string list" where
  "visited (FsDir path ex entries) = (if ex then path # concat (map visited entries) else [])"

section \<open>Resources and the resource folder model\<close>

text \<open>
  The declarations of \<^verbatim>\<open>Resource\<close> and of its metadata are not part of the sources at
  hand. The records carry what the export task reads from them (the metadata with its
  URL, hash, hash format and side, and the file) and what the specification lists
  (the identity and the parse state). Of the sides only \<^verbatim>\<open>ClientSide\<close> is named by
  the sources; \<open>NoSide\<close> is the value of a side that was never set.
\<close>

datatype ModSide = NoSide | ClientSide | ServerSide | UniversalSide

record QUrl =
  url_host :: string
  url_encoded :: string

definition url_isEmpty :: "QUrl \<Rightarrow> bool" where
  "url_isEmpty u = (url_encoded u = [])"

record Metadata =
  url :: QUrl
  hash :: string
  hash_format :: string
  side :: ModSide

datatype ParseState = Unparsed | Parsing int | Parsed | ParseFailed

record Resource =
  internal_id :: string
  fileinfo :: string
  metadata :: "Metadata option"
  parse_state :: ParseState

text \<open>
  The members of \<^verbatim>\<open>ResourceFolderModel\<close> as its header declares them. An update task
  is known by a number; a parse task in the map of active parse tasks is known by the
  identity of the resource it parses.
\<close>

record ResourceFolderModel =
  m_dir :: string
  m_current_update_task :: "nat option"
  m_scheduled_update :: bool
  m_resources :: "Resource list"
  m_resources_index :: "(string \<times> int) list"
  m_active_parse_tasks :: "(int \<times> string) list"
  m_next_resolution_ticket :: int

text \<open>The model as the initialisers of the header leave it.\<close>

definition initial_model :: "string \<Rightarrow> ResourceFolderModel" where
  "initial_model d =
     \<lparr>m_dir = d, m_current_update_task = None, m_scheduled_update = False, m_resources = [],
      m_resources_index = [], m_active_parse_tasks = [], m_next_resolution_ticket = 0\<rparr>"

text \<open>
  Modelled from the spec: the body of \<^verbatim>\<open>ResourceFolderModel::update\<close> is missing from
  the sources. If a coarse update task is already in flight the call is a no-op that
  returns false; otherwise the new task (made by \<^verbatim>\<open>createUpdateTask\<close>) becomes the
  current update task, is started, and the call returns true.
\<close>

definition update :: "nat \<Rightarrow> ResourceFolderModel \<Rightarrow> bool \<times> ResourceFolderModel" where
  "update new_task s =
     (case m_current_update_task s of
        Some running \<Rightarrow> (False, s)
      | None \<Rightarrow> (True, s\<lparr>m_current_update_task := Some new_task\<rparr>))"

text \<open>
  Modelled from the spec: what ends the flight of the update task is missing from the
  sources. When the task has finished, with success or with failure, no update task is
  in flight any more.
\<close>

definition updateTaskFinished :: "ResourceFolderModel \<Rightarrow> ResourceFolderModel" where
  "updateTaskFinished s = s\<lparr>m_current_update_task := None\<rparr>"

text \<open>
  Modelled from the spec: the rebuilding of the index is missing from the sources. The
  index maps the identity of every resource to its position in the list.
\<close>

definition reindex :: "Resource list \<Rightarrow> (string \<times> int) list" where
  "reindex rs =
     fold (\<lambda>(i, r) index. qmap_insert (internal_id r) (int i) index) (enumerate 0 rs) []"

text \<open>
  Modelled from the spec: the body of \<^verbatim>\<open>ResourceFolderModel::resolveResource\<close> is
  missing from the sources. If the parse-task factory returns a task for the resource,
  a ticket is minted from the counter, the task is stored in the map of active parse
  tasks under the ticket, and the resource is being parsed under that ticket; if the
  factory returns no task nothing happens.
\<close>

definition resolveResource ::
  "(Resource \<Rightarrow> bool) \<Rightarrow> Resource \<Rightarrow> ResourceFolderModel \<Rightarrow> ResourceFolderModel" where
  "resolveResource createParseTask res s =
     (if \<not> createParseTask res then s
      else (let ticket = m_next_resolution_ticket s
            in s\<lparr>m_next_resolution_ticket := ticket + 1,
                 m_active_parse_tasks :=
                   qmap_insert ticket (internal_id res) (m_active_parse_tasks s),
                 m_resources :=
                   map (\<lambda>r. if internal_id r = internal_id res
                             then r\<lparr>parse_state := Parsing ticket\<rparr> else r)
                       (m_resources s)\<rparr>))"

text \<open>
  Modelled from the spec: the removal of a resource is missing from the sources. The
  resource is erased from the list and the index is rebuilt; its parse task is not
  cancelled, but the tickets of the tasks that parse it are invalidated.
\<close>

definition removeResource :: "string \<Rightarrow> ResourceFolderModel \<Rightarrow> ResourceFolderModel" where
  "removeResource resource_id s =
     (let rs = filter (\<lambda>r. internal_id r \<noteq> resource_id) (m_resources s)
      in s\<lparr>m_resources := rs,
           m_resources_index := reindex rs,
           m_active_parse_tasks :=
             filter (\<lambda>e. snd e \<noteq> resource_id) (m_active_parse_tasks s)\<rparr>)"

text \<open>
  Modelled from the spec: the insertion of a resource is missing from the sources. The
  new resource is put into the list and the index is rebuilt.
\<close>

definition insertResource :: "Resource \<Rightarrow> ResourceFolderModel \<Rightarrow> ResourceFolderModel" where
  "insertResource res s =
     (let rs = m_resources s @ [res]
      in s\<lparr>m_resources := rs, m_resources_index := reindex rs\<rparr>)"

text \<open>
  Modelled from the spec: the body of \<^verbatim>\<open>ResourceFolderModel::onParseSucceeded\<close> is
  missing from the sources. A completion whose ticket is not in the map of active parse
  tasks is discarded. Otherwise the ticket is spent, and the resource of the given
  identity takes the parsed metadata and is parsed.
\<close>

definition onParseSucceeded ::
  "int \<Rightarrow> string \<Rightarrow> Metadata option \<Rightarrow> ResourceFolderModel \<Rightarrow> ResourceFolderModel" where
  "onParseSucceeded ticket resource_id parsed s =
     (if \<not> qmap_contains (m_active_parse_tasks s) ticket then s
      else s\<lparr>m_active_parse_tasks := qmap_remove ticket (m_active_parse_tasks s),
             m_resources :=
               map (\<lambda>r. if internal_id r = resource_id
                         then r\<lparr>metadata := parsed, parse_state := Parsed\<rparr> else r)
                   (m_resources s)\<rparr>)"

text \<open>
  The states a model goes through, together with the update tasks that are running:
  a task runs from the call of \<open>update\<close> that started it until it has finished.
\<close>

inductive reachable :: "ResourceFolderModel \<times> nat list \<Rightarrow> bool" where
  reachable_initial: "reachable (initial_model d, [])"
| reachable_update:
    "reachable (s, running) \<Longrightarrow> update new_task s = (started, s') \<Longrightarrow>
     reachable (s', if started then new_task # running else running)"
| reachable_finished:
    "reachable (s, running) \<Longrightarrow> t \<in> set running \<Longrightarrow>
     reachable (updateTaskFinished s, remove1 t running)"
| reachable_insert:
    "reachable (s, running) \<Longrightarrow> reachable (insertResource res s, running)"
| reachable_resolve:
    "reachable (s, running) \<Longrightarrow> reachable (resolveResource createParseTask res s, running)"
| reachable_remove:
    "reachable (s, running) \<Longrightarrow> reachable (removeResource resource_id s, running)"
| reachable_parsed:
    "reachable (s, running) \<Longrightarrow>
     reachable (onParseSucceeded ticket resource_id parsed s, running)"

section \<open>The Modrinth pack export task\<close>

text \<open>
  What the task finds outside itself: how the game root makes a path relative, the hosts
  of \<^verbatim>\<open>BuildConfig.MODRINTH_MRPACK_HOSTS\<close>, what opening and reading a file gives, the
  two overloads of \<^verbatim>\<open>Hashing::hash\<close>, \<^verbatim>\<open>Json::requireDocument\<close> (the left summand is the
  message of the exception it throws), and \<^verbatim>\<open>MMCZip::collectFileListRecursively\<close>
  under a filter (whether it succeeded, and the files it appended).
\<close>

datatype FileRead = OpenFailed | ReadFailed | FileContents string int

datatype Algorithm = Sha1 | Sha512

record Env =
  relativeFilePath :: "string \<Rightarrow> string"
  MODRINTH_MRPACK_HOSTS :: "string list"
  readFile :: "string \<Rightarrow> FileRead"
  hash_data :: "string \<Rightarrow> Algorithm \<Rightarrow> string"
  hash_file :: "string \<Rightarrow> Algorithm \<Rightarrow> string"
  requireDocument :: "string \<Rightarrow> string + json"
  collectFileListRecursively :: "(string \<Rightarrow> bool) \<Rightarrow> bool \<times> string list"

text \<open>
  The instance: its resource models as they stand when their update has finished, and
  the version of each component of its pack profile (none when
  \<^verbatim>\<open>getComponent\<close> returns null).
\<close>

record MinecraftInstance =
  resourceLists :: "ResourceFolderModel list"
  getComponent :: "string \<Rightarrow> string option"

record ResolvedFile =
  sha1 :: string
  sha512 :: string
  file_url :: string
  file_size :: int
  file_side :: ModSide

text \<open>The arguments and settings that \<^verbatim>\<open>buildZip\<close> gives to \<^verbatim>\<open>MMCZip::ExportToZipTask\<close>.\<close>

record ExportToZipTask =
  outputPath :: string
  zip_dir :: string
  zip_files :: "string list"
  destinationPrefix :: string
  followSymlinks :: bool
  utf8Enabled :: bool
  extraFiles :: "(string \<times> json) list"
  excludeFiles :: "string list"

text \<open>
  The task that the export task is waiting for: the request for the current versions of
  a list of hashes under a hash algorithm, or the building of the archive.
\<close>

datatype ActiveTask = CurrentVersions "string list" string | ExportToZip ExportToZipTask

datatype TaskState = Running | Succeeded | Failed string | AbortedByUser

record ModrinthPackExportTask =
  name :: string
  version :: string
  summary :: string
  optionalFiles :: bool
  inst :: MinecraftInstance
  gameRoot :: string
  output_file :: string
  filter_fn :: "string \<Rightarrow> bool"
  files :: "string list"
  pendingHashes :: "(string \<times> string) list"
  resolvedFiles :: "(string \<times> ResolvedFile) list"
  task :: "ActiveTask option"
  status :: string
  abortable :: bool
  task_state :: TaskState

definition FILE_EXTENSIONS :: "string list" where
  "FILE_EXTENSIONS = [''jar'', ''litemod'', ''zip'']"

definition emitFailed :: "string \<Rightarrow> ModrinthPackExportTask \<Rightarrow> ModrinthPackExportTask" where
  "emitFailed reason s = s\<lparr>task_state := Failed reason\<rparr>"

definition emitSucceeded :: "ModrinthPackExportTask \<Rightarrow> ModrinthPackExportTask" where
  "emitSucceeded s = s\<lparr>task_state := Succeeded\<rparr>"

definition emitAborted :: "ModrinthPackExportTask \<Rightarrow> ModrinthPackExportTask" where
  "emitAborted s = s\<lparr>task_state := AbortedByUser\<rparr>"

subsection \<open>The manifest\<close>

text \<open>
  The body of the loop of \<^verbatim>\<open>generateIndex\<close>: the entry of one resolved file. The
  members of a \<^verbatim>\<open>QJsonObject\<close> are set with \<^verbatim>\<open>object[key] = value\<close>.
\<close>

definition fileOut :: "bool \<Rightarrow> string \<Rightarrow> ResolvedFile \<Rightarrow> json" where
  "fileOut optional path0 resolved =
     (let disabled = (optional \<and> suffix_of path0 = ''disabled'');
          path = (if disabled then filePath (dir_of path0) (completeBaseName path0) else path0);
          env0 = (if disabled
                  then qmap_insert ''server'' (JString ''optional'')
                         (qmap_insert ''client'' (JString ''optional'') [])
                  else qmap_insert ''server'' (JString ''required'')
                         (qmap_insert ''client'' (JString ''required'') []));
          env = (if file_side resolved = ClientSide
                 then qmap_insert ''server'' (JString ''unsupported'') env0 else env0);
          hashes = qmap_insert ''sha512'' (JString (sha512 resolved))
                     (qmap_insert ''sha1'' (JString (sha1 resolved)) [])
      in JObject
           (qmap_insert ''fileSize'' (JInt (file_size resolved))
           (qmap_insert ''hashes'' (JObject hashes)
           (qmap_insert ''downloads'' (JArray [JString (file_url resolved)])
           (qmap_insert ''path'' (JString path)
           (qmap_insert ''env'' (JObject env) []))))))"

text \<open>The dependencies of \<^verbatim>\<open>generateIndex\<close>: one member for every component that is there.\<close>

definition dependency ::
  "MinecraftInstance \<Rightarrow> string \<Rightarrow> string \<Rightarrow> (string \<times> json) list \<Rightarrow> (string \<times> json) list" where
  "dependency i uid key deps =
     (case getComponent i uid of None \<Rightarrow> deps | Some v \<Rightarrow> qmap_insert key (JString v) deps)"

definition dependencies :: "MinecraftInstance \<Rightarrow> (string \<times> json) list" where
  "dependencies i =
     dependency i ''net.neoforged'' ''neoforge''
       (dependency i ''net.minecraftforge'' ''forge''
         (dependency i ''net.fabricmc.fabric-loader'' ''fabric-loader''
           (dependency i ''org.quiltmc.quilt-loader'' ''quilt-loader''
             (dependency i ''net.minecraft'' ''minecraft'' []))))"

text \<open>
  \<^verbatim>\<open>generateIndex\<close>, up to the serialisation of the document, which the JSON library
  does.
\<close>

definition generateIndex :: "ModrinthPackExportTask \<Rightarrow> json" where
  "generateIndex s =
     (let out0 = qmap_insert ''versionId'' (JString (version s))
                   (qmap_insert ''name'' (JString (name s))
                   (qmap_insert ''game'' (JString ''minecraft'')
                   (qmap_insert ''formatVersion'' (JInt 1) [])));
          out1 = (if summary s \<noteq> [] then qmap_insert ''summary'' (JString (summary s)) out0
                  else out0);
          out2 = qmap_insert ''dependencies'' (JObject (dependencies (inst s))) out1;
          filesOut = map (\<lambda>(path, resolved). fileOut (optionalFiles s) path resolved)
                       (resolvedFiles s)
      in JObject (qmap_insert ''files'' (JArray filesOut) out2))"

subsection \<open>The stages of the export\<close>

text \<open>\<^verbatim>\<open>buildZip\<close>: the archive task is set up, becomes the active task and is started.\<close>

definition buildZip :: "ModrinthPackExportTask \<Rightarrow> ModrinthPackExportTask" where
  "buildZip s =
     s\<lparr>status := ''Adding files...'',
       task := Some (ExportToZip
         \<lparr>outputPath = output_file s, zip_dir = gameRoot s, zip_files = files s,
          destinationPrefix = ''overrides/'', followSymlinks = True, utf8Enabled = True,
          extraFiles = qmap_insert ''modrinth.index.json'' (generateIndex s) [],
          excludeFiles = qmap_keys (resolvedFiles s)\<rparr>)\<rparr>"

text \<open>
  \<^verbatim>\<open>makeApiRequest\<close>: with nothing pending the archive is built; otherwise the versions
  of the pending hashes are requested.
\<close>

definition makeApiRequest :: "ModrinthPackExportTask \<Rightarrow> ModrinthPackExportTask" where
  "makeApiRequest s =
     (if pendingHashes s = [] then buildZip s
      else s\<lparr>status := ''Finding versions for hashes...'',
             task := Some (CurrentVersions (qmap_values (pendingHashes s)) ''sha512'')\<rparr>)"

text \<open>
  The search of \<^verbatim>\<open>parseApiResponse\<close> for the record of a hash: the member of the
  document under the hash, when it is a non-empty object, and in its \<^verbatim>\<open>files\<close> the
  first file whose \<^verbatim>\<open>sha512\<close> hash is the hash.
\<close>

definition findVersionFile :: "json \<Rightarrow> string \<Rightarrow> json option" where
  "findVersionFile doc hash512 =
     (let obj = toObject (jget doc hash512)
      in if obj = [] then None
         else find (\<lambda>file. jget (jget file ''hashes'') ''sha512'' = JString hash512)
                (toArray (jget (JObject obj) ''files'')))"

text \<open>The body of the loop of \<^verbatim>\<open>parseApiResponse\<close> over the pending hashes.\<close>

definition resolvePending ::
  "json \<Rightarrow> string \<times> string \<Rightarrow> (string \<times> ResolvedFile) list \<Rightarrow> (string \<times> ResolvedFile) list" where
  "resolvePending doc pending resolved =
     (case findVersionFile doc (snd pending) of
        None \<Rightarrow> resolved
      | Some file \<Rightarrow>
          qmap_insert (fst pending)
            \<lparr>sha1 = toString (jget (JObject (toObject (jget (JObject (toObject file)) ''hashes''))) ''sha1''),
             sha512 = snd pending,
             file_url = toString (jget (JObject (toObject file)) ''url''),
             file_size = toInt (jget (JObject (toObject file)) ''size''),
             file_side = NoSide\<rparr>
            resolved)"

text \<open>\<^verbatim>\<open>parseApiResponse\<close>, called with the response when the request has succeeded.\<close>

definition parseApiResponse :: "Env \<Rightarrow> string \<Rightarrow> ModrinthPackExportTask \<Rightarrow> ModrinthPackExportTask" where
  "parseApiResponse env response s =
     (case requireDocument env response of
        Inl what \<Rightarrow> emitFailed (''Failed to parse versions response: '' @ what) (s\<lparr>task := None\<rparr>)
      | Inr doc \<Rightarrow>
          buildZip (s\<lparr>task := None,
                      resolvedFiles := fold (resolvePending doc) (pendingHashes s) (resolvedFiles s),
                      pendingHashes := []\<rparr>))"

text \<open>
  The body of the first inner loop of \<^verbatim>\<open>collectHashes\<close>: a resource with metadata of
  an allowed host is resolved from the index. Every \<^verbatim>\<open>continue\<close> leaves the resolved
  files as they are.
\<close>

definition resolveFromIndex ::
  "Env \<Rightarrow> (string \<Rightarrow> bool) \<Rightarrow> Resource \<Rightarrow> (string \<times> ResolvedFile) list \<Rightarrow> (string \<times> ResolvedFile) list" where
  "resolveFromIndex env flt resource resolved =
     (case metadata resource of
        None \<Rightarrow> resolved
      | Some md \<Rightarrow>
          if url_isEmpty (url md) \<or> url_host (url md) \<notin> set (MODRINTH_MRPACK_HOSTS env)
          then resolved
          else (let relativePath = relativeFilePath env (fileinfo resource)
                in if flt relativePath then resolved
                   else (let sha1_0 = (if hash_format md = ''sha1'' then hash md else []);
                             sha512_0 = (if hash_format md = ''sha1'' then []
                                         else if hash_format md = ''sha512'' then hash md else [])
                         in case readFile env (fileinfo resource) of
                              OpenFailed \<Rightarrow> resolved
                            | ReadFailed \<Rightarrow> resolved
                            | FileContents data sz \<Rightarrow>
                                qmap_insert relativePath
                                  \<lparr>sha1 = (if sha1_0 = [] then hash_data env data Sha1 else sha1_0),
                                   sha512 = (if sha512_0 = [] then hash_data env data Sha512
                                             else sha512_0),
                                   file_url = url_encoded (url md),
                                   file_size = sz,
                                   file_side = side md\<rparr>
                                  resolved)))"

text \<open>
  The body of the outer loop: the prefix of the model's directory is appended and the
  resources of the model are gone through.
\<close>

definition collectModel ::
  "Env \<Rightarrow> (string \<Rightarrow> bool) \<Rightarrow> ResourceFolderModel \<Rightarrow>
   string list \<times> (string \<times> ResolvedFile) list \<Rightarrow> string list \<times> (string \<times> ResolvedFile) list" where
  "collectModel env flt model acc =
     (fst acc @ [relativeFilePath env (m_dir model) @ ''/''],
      fold (resolveFromIndex env flt) (m_resources model) (snd acc))"

text \<open>
  The conditions of the second loop of \<^verbatim>\<open>collectHashes\<close> and its body: a file that is
  not resolved, lies under one of the prefixes and has one of the extensions, disabled or
  not, is enqueued with its \<^verbatim>\<open>sha512\<close> hash.
\<close>

definition hasPrefix :: "string list \<Rightarrow> string \<Rightarrow> bool" where
  "hasPrefix prefixes relative = list_ex (\<lambda>prefix. startsWith relative prefix) prefixes"

definition hasExtension :: "string \<Rightarrow> bool" where
  "hasExtension relative =
     list_ex (\<lambda>extension. endsWith relative (''.'' @ extension)
                        \<or> endsWith relative (''.'' @ extension @ ''.disabled''))
       FILE_EXTENSIONS"

definition enqueue ::
  "Env \<Rightarrow> string list \<Rightarrow> (string \<times> ResolvedFile) list \<Rightarrow> string \<Rightarrow>
   (string \<times> string) list \<Rightarrow> (string \<times> string) list" where
  "enqueue env prefixes resolved file pending =
     (let relative = relativeFilePath env file
      in if qmap_contains resolved relative then pending
         else if \<not> hasPrefix prefixes relative then pending
         else if \<not> hasExtension relative then pending
         else qmap_insert relative (hash_file env file Sha512) pending)"

text \<open>The files that the second loop enqueues: those that pass its three conditions.\<close>

definition staged ::
  "Env \<Rightarrow> string list \<Rightarrow> (string \<times> ResolvedFile) list \<Rightarrow> string \<Rightarrow> bool" where
  "staged env prefixes resolved file =
     (\<not> qmap_contains resolved (relativeFilePath env file)
      \<and> hasPrefix prefixes (relativeFilePath env file)
      \<and> hasExtension (relativeFilePath env file))"

text \<open>\<^verbatim>\<open>collectHashes\<close>.\<close>

definition collectHashes :: "Env \<Rightarrow> ModrinthPackExportTask \<Rightarrow> ModrinthPackExportTask" where
  "collectHashes env s =
     (let acc = fold (collectModel env (filter_fn s)) (resourceLists (inst s))
                  ([], resolvedFiles s);
          pending = fold (enqueue env (fst acc) (snd acc)) (files s) (pendingHashes s)
      in makeApiRequest
           (s\<lparr>status := ''Finding file hashes...'', resolvedFiles := snd acc,
              pendingHashes := pending, abortable := True\<rparr>))"

text \<open>\<^verbatim>\<open>collectFiles\<close> and \<^verbatim>\<open>executeTask\<close>.\<close>

definition collectFiles :: "Env \<Rightarrow> ModrinthPackExportTask \<Rightarrow> ModrinthPackExportTask" where
  "collectFiles env s =
     (case collectFileListRecursively env (filter_fn s) of
        (ok, collected) \<Rightarrow>
          if \<not> ok
          then emitFailed ''Could not search for files'' (s\<lparr>abortable := False, files := collected\<rparr>)
          else collectHashes env
                 (s\<lparr>abortable := False, files := collected, pendingHashes := [],
                    resolvedFiles := []\<rparr>))"

definition executeTask :: "Env \<Rightarrow> ModrinthPackExportTask \<Rightarrow> ModrinthPackExportTask" where
  "executeTask env s = collectFiles env (s\<lparr>status := ''Searching for files...''\<rparr>)"

text \<open>\<^verbatim>\<open>abort\<close>: with an active task the export is aborted, without one it is not.\<close>

definition abort :: "ModrinthPackExportTask \<Rightarrow> bool \<times> ModrinthPackExportTask" where
  "abort s = (case task s of Some t \<Rightarrow> (True, emitAborted s) | None \<Rightarrow> (False, s))"


subsection \<open>A sample export\<close>

text \<open>
  A small instance on which the definitions are run: the game root \<open>/game\<close> with the two
  mods \<open>a.jar\<close> (known to the index, on an allowed host, client side only, disabled) and
  \<open>b.jar\<close> (unknown), and a response that knows the hash of \<open>b.jar\<close>.
\<close>

definition sample_hash :: "string \<Rightarrow> Algorithm \<Rightarrow> string" where
  "sample_hash x algorithm = (case algorithm of Sha1 \<Rightarrow> ''sha1:'' @ x | Sha512 \<Rightarrow> ''sha512:'' @ x)"

definition sample_response :: json where
  "sample_response =
     JObject [(''sha512:/game/mods/b.jar'',
       JObject [(''files'', JArray [JObject
         [(''hashes'', JObject [(''sha1'', JString ''sha1-of-b''),
                                (''sha512'', JString ''sha512:/game/mods/b.jar'')]),
          (''size'', JInt 42),
          (''url'', JString ''https://cdn.modrinth.com/data/b.jar'')]])])]"

definition sample_env :: Env where
  "sample_env =
     \<lparr>relativeFilePath = drop 6,
      MODRINTH_MRPACK_HOSTS = [''cdn.modrinth.com''],
      readFile = (\<lambda>p. if p = ''/game/mods/a.jar.disabled'' then FileContents ''bytes of a'' 10
                       else OpenFailed),
      hash_data = sample_hash,
      hash_file = sample_hash,
      requireDocument = (\<lambda>r. if r = ''versions'' then Inr sample_response
                               else if r = ''nothing'' then Inr (JObject [])
                               else Inl ''not a document''),
      collectFileListRecursively =
        (\<lambda>flt. (True, filter (\<lambda>p. \<not> flt (drop 6 p))
                           [''/game/mods/a.jar.disabled'', ''/game/mods/b.jar'', ''/game/options.txt'']))\<rparr>"

definition sample_resource :: Resource where
  "sample_resource =
     \<lparr>internal_id = ''a.jar'', fileinfo = ''/game/mods/a.jar.disabled'',
      metadata = Some \<lparr>url = \<lparr>url_host = ''cdn.modrinth.com'',
                               url_encoded = ''https://cdn.modrinth.com/data/a.jar''\<rparr>,
                       hash = ''declared-sha1-of-a'', hash_format = ''sha1'', side = ClientSide\<rparr>,
      parse_state = Parsed\<rparr>"

definition sample_instance :: MinecraftInstance where
  "sample_instance =
     \<lparr>resourceLists = [(initial_model ''/game/mods'')\<lparr>m_resources := [sample_resource]\<rparr>],
      getComponent = (\<lambda>uid. if uid = ''net.minecraft'' then Some ''1.20.1'' else None)\<rparr>"

definition sample_task :: "(string \<Rightarrow> bool) \<Rightarrow> ModrinthPackExportTask" where
  "sample_task flt =
     \<lparr>name = ''pack'', version = ''1.0'', summary = [], optionalFiles = False,
      inst = sample_instance, gameRoot = ''/game'', output_file = ''/tmp/pack.mrpack'',
      filter_fn = flt, files = [], pendingHashes = [], resolvedFiles = [], task = None,
      status = [], abortable = True, task_state = Running\<rparr>"

section \<open>Properties of the containers\<close>

lemma map_of_qmap_insert: "map_of (qmap_insert k v m) = (map_of m)(k \<mapsto> v)"
  by (induction m) (auto simp: fun_upd_twist)

lemma keys_qmap_insert: "fst ` set (qmap_insert k v m) = insert k (fst ` set m)"
  using map_of_qmap_insert [of k v m]
  by (metis dom_map_of_conv_image_fst dom_fun_upd option.simps(3))

lemma qmap_contains_keys: "qmap_contains m k \<longleftrightarrow> k \<in> set (qmap_keys m)"
  by (simp add: qmap_contains_def qmap_keys_def map_of_eq_None_iff)

lemma qmap_insert_sorted:
  "sorted_wrt (<) (map fst m) \<Longrightarrow> sorted_wrt (<) (map fst (qmap_insert k v m))"
proof (induction m)
  case Nil
  then show ?case by simp
next
  case (Cons e m)
  obtain k' v' where e: "e = (k', v')" by (cases e)
  have "\<forall>x \<in> fst ` set (qmap_insert k v m). k' < x" if "k' < k"
    using that Cons.prems e by (auto simp: keys_qmap_insert)
  with Cons e show ?case by (auto simp: not_less)
qed

lemma sorted_filter_keys:
  "sorted_wrt (<) (map fst m) \<Longrightarrow> sorted_wrt (<) (map fst (filter P m))"
  by (induction m) auto

lemma map_of_filter_snd:
  "sorted_wrt (<) (map fst (m :: ('k::linorder \<times> 'v) list)) \<Longrightarrow> map_of m t = Some r \<Longrightarrow>
   map_of (filter (\<lambda>e. snd e \<noteq> r) m) t = None"
proof (induction m)
  case Nil
  then show ?case by simp
next
  case (Cons e m)
  obtain k v where e: "e = (k, v)" by (cases e)
  show ?case
  proof (cases "k = t")
    case True
    with Cons.prems e have "v = r" by simp
    have "\<forall>x \<in> set m. t < fst x" using Cons.prems(1) e True by simp
    then have "t \<notin> fst ` set m" by force
    then have "t \<notin> fst ` set (filter (\<lambda>e. snd e \<noteq> r) m)" by auto
    then have "map_of (filter (\<lambda>e. snd e \<noteq> r) m) t = None"
      by (simp add: map_of_eq_None_iff)
    with True e \<open>v = r\<close> show ?thesis by simp
  next
    case False
    with Cons e show ?thesis by auto
  qed
qed

section \<open>Properties of the icon directory reconciliation\<close>

lemma addPath_set:
  "set (snd (addPath accept w p)) = set w \<union> (if accept p then {p} else {})"
  by (auto simp: addPath_def)

lemma addPath_fst: "fst (addPath accept w p) = (accept p \<and> p \<notin> set w)"
  by (simp add: addPath_def)

lemma addPathRecursively_addEntries_spec:
  "set (snd (addPathRecursively accept t w)) = set w \<union> {p \<in> set (visited t). accept p}
   \<and> (fst (addPathRecursively accept t w) \<longleftrightarrow> (\<exists>p \<in> set (visited t). accept p \<and> p \<notin> set w))"
  "set (snd (addEntries accept es b w)) = set w \<union> {p \<in> set (concat (map visited es)). accept p}
   \<and> (fst (addEntries accept es b w) \<longleftrightarrow>
        b \<or> (\<exists>p \<in> set (concat (map visited es)). accept p \<and> p \<notin> set w))"
proof (induction accept t w and accept es b w rule: addPathRecursively_addEntries.induct)
  case (1 accept path ex entries watcher)
  show ?case
  proof (cases ex)
    case False
    then show ?thesis by simp
  next
    case True
    obtain b w' where a: "addPath accept watcher path = (b, w')"
      by (cases "addPath accept watcher path")
    have w': "set w' = set watcher \<union> (if accept path then {path} else {})"
      using addPath_set [of accept watcher path] a by simp
    have b: "b = (accept path \<and> path \<notin> set watcher)"
      using addPath_fst [of accept watcher path] a by simp
    from "1.IH" [OF _ a [symmetric]] True
    have IH: "set (snd (addEntries accept entries b w')) =
                set w' \<union> {p \<in> set (concat (map visited entries)). accept p}"
      "fst (addEntries accept entries b w') \<longleftrightarrow>
         b \<or> (\<exists>p \<in> set (concat (map visited entries)). accept p \<and> p \<notin> set w')"
      by simp_all
    have s: "set (snd (addPathRecursively accept (FsDir path ex entries) watcher)) =
               set watcher \<union> {p \<in> set (visited (FsDir path ex entries)). accept p}"
      using True a IH(1) w' by auto
    have f: "fst (addPathRecursively accept (FsDir path ex entries) watcher) \<longleftrightarrow>
               (\<exists>p \<in> set (visited (FsDir path ex entries)). accept p \<and> p \<notin> set watcher)"
      using True a IH(2) w' b by auto
    from s f show ?thesis by blast
  qed
next
  case (2 accept watching watcher)
  show ?case by simp
next
  case (3 accept entry entries watching watcher)
  obtain r w' where a: "addPathRecursively accept entry watcher = (r, w')"
    by (cases "addPathRecursively accept entry watcher")
  from "3.IH"(1) a
  have h1: "set w' = set watcher \<union> {p \<in> set (visited entry). accept p}"
    and h2: "r \<longleftrightarrow> (\<exists>p \<in> set (visited entry). accept p \<and> p \<notin> set watcher)"
    by simp_all
  from "3.IH"(2) [OF a [symmetric]]
  have IH: "set (snd (addEntries accept entries (if r then True else watching) w')) =
              set w' \<union> {p \<in> set (concat (map visited entries)). accept p}"
    "fst (addEntries accept entries (if r then True else watching) w') \<longleftrightarrow>
       (if r then True else watching) \<or>
       (\<exists>p \<in> set (concat (map visited entries)). accept p \<and> p \<notin> set w')"
    by simp_all
  have s: "set (snd (addEntries accept (entry # entries) watching watcher)) =
             set watcher \<union> {p \<in> set (concat (map visited (entry # entries))). accept p}"
    using a IH(1) h1 by auto
  have f: "fst (addEntries accept (entry # entries) watching watcher) \<longleftrightarrow>
             watching \<or>
             (\<exists>p \<in> set (concat (map visited (entry # entries))). accept p \<and> p \<notin> set watcher)"
    using a IH(2) h1 h2 by auto
  from s f show ?case by blast
qed

text \<open>
  Claim C1. In every run of \<^verbatim>\<open>IconList::directoryChanged\<close> that reaches the
  reconciliation, the set of paths to add and the set of paths to remove are disjoint,
  and the tracked set with the additions put in and the removals then taken out is the
  freshly scanned set.
\<close>

theorem directoryChanged_toAdd_toRemove:
  "toAdd icons newFileNamesList \<inter> toRemove icons newFileNamesList = {}
   \<and> (currentSet icons \<union> toAdd icons newFileNamesList)
        - toRemove icons newFileNamesList = toStringSet newFileNamesList"
  by (auto simp: toAdd_def toRemove_def)

text \<open>
  Claim C2, as the code has it. A failed registration of one path does not keep the
  others from being registered: whatever else fails, the watcher ends with every visited
  path that the system accepts. The traversal reports success exactly when at least one
  visited path was newly registered, not only when all of them were; and
  \<^verbatim>\<open>startWatching\<close> stores that answer in \<^verbatim>\<open>m_isWatching\<close>.
\<close>

theorem addPathRecursively_reports_any:
  "set (snd (addPathRecursively accept root watcher)) =
     set watcher \<union> {p \<in> set (visited root). accept p}
   \<and> (fst (addPathRecursively accept root watcher) \<longleftrightarrow>
        (\<exists>p \<in> set (visited root). accept p \<and> p \<notin> set watcher))
   \<and> m_isWatching (startWatching accept root s) =
        fst (addPathRecursively accept root (m_watcher s))"
  using addPathRecursively_addEntries_spec(1) [of accept root watcher]
  by (simp add: startWatching_def split: prod.split)

theorem addPathRecursively_reports_any_witness:
  "set (snd (addPathRecursively (\<lambda>p. p = ''/icons/a'')
        (FsDir ''/icons'' True [FsDir ''/icons/a'' True [], FsDir ''/icons/b'' True []]) [])) =
     {''/icons/a''}
   \<and> fst (addPathRecursively (\<lambda>p. p = ''/icons/a'')
        (FsDir ''/icons'' True [FsDir ''/icons/a'' True [], FsDir ''/icons/b'' True []]) [])"
  using addPathRecursively_reports_any [of "\<lambda>p. p = ''/icons/a''"
      "FsDir ''/icons'' True [FsDir ''/icons/a'' True [], FsDir ''/icons/b'' True []]" "[]"]
  by (simp add: addPath_def)

text \<open>
  The claim as the specification words it fails: with the root registered and the
  registration of its subdirectory refused, the traversal still reports success, and
  \<^verbatim>\<open>m_isWatching\<close> is set, although one path was not registered.
\<close>

theorem addPathRecursively_all_counterexample:
  "fst (addPathRecursively (\<lambda>p. p = ''/icons'')
        (FsDir ''/icons'' True [FsDir ''/icons/sub'' True []]) [])
   \<and> ''/icons/sub'' \<in> set (visited (FsDir ''/icons'' True [FsDir ''/icons/sub'' True []]))
   \<and> ''/icons/sub'' \<notin> set (snd (addPathRecursively (\<lambda>p. p = ''/icons'')
        (FsDir ''/icons'' True [FsDir ''/icons/sub'' True []]) []))
   \<and> m_isWatching (startWatching (\<lambda>p. p = ''/icons'')
        (FsDir ''/icons'' True [FsDir ''/icons/sub'' True []])
        \<lparr>m_icons = [], m_watcher = [], m_isWatching = False\<rparr>)"
  by (simp add: addPath_def startWatching_def)

section \<open>Properties of the resource folder model\<close>

lemma reachable_invariant:
  "reachable (s, running) \<Longrightarrow>
   running = (case m_current_update_task s of None \<Rightarrow> [] | Some t \<Rightarrow> [t])
   \<and> sorted_wrt (<) (map fst (m_active_parse_tasks s))"
proof (induction "(s, running)" arbitrary: s running rule: reachable.induct)
  case (reachable_initial d)
  then show ?case by (simp add: initial_model_def)
next
  case (reachable_update s running new_task started s')
  then show ?case by (auto simp: update_def split: option.splits)
next
  case (reachable_finished s running t)
  then show ?case by (auto simp: updateTaskFinished_def split: option.splits)
next
  case (reachable_insert s running res)
  then show ?case by (auto simp: insertResource_def Let_def)
next
  case (reachable_resolve s running createParseTask res)
  then show ?case by (auto simp: resolveResource_def Let_def qmap_insert_sorted)
next
  case (reachable_remove s running resource_id)
  then show ?case by (auto simp: removeResource_def Let_def sorted_filter_keys)
next
  case (reachable_parsed s running ticket resource_id parsed)
  then show ?case
    by (auto simp: onParseSucceeded_def qmap_remove_def sorted_filter_keys)
qed

text \<open>
  Claim C3. In every state a model reaches, at most one update task is running; and a
  call of \<^verbatim>\<open>update\<close> while one is running returns false and leaves the model as it is,
  so that no second task is started.
\<close>

theorem update_at_most_one:
  "reachable (s, running) \<Longrightarrow>
   length running \<le> 1 \<and> (running \<noteq> [] \<longrightarrow> update new_task s = (False, s))"
  using reachable_invariant [of s running]
  by (auto simp: update_def split: option.splits)

theorem update_at_most_one_witness:
  "length [7::nat] \<le> 1
   \<and> update 8 (snd (update 7 (initial_model ''mods''))) = (False, snd (update 7 (initial_model ''mods'')))"
proof -
  have u: "update 7 (initial_model ''mods'') = (True, snd (update 7 (initial_model ''mods'')))"
    by (simp add: update_def initial_model_def)
  have "reachable (snd (update 7 (initial_model ''mods'')), if True then 7 # [] else [])"
    using reachable_update [OF reachable_initial u] .
  then have r: "reachable (snd (update 7 (initial_model ''mods'')), [7])" by simp
  show ?thesis using update_at_most_one [OF r, of 8] by simp
qed

text \<open>
  Claim C4. A completion whose ticket is not in the map of active parse tasks leaves the
  model as it is, so no resource is changed. No completion, stale or not, changes which
  resources the list holds, so none is put back. In particular, once a resource whose
  parse task is in flight has been removed, the completion of that task is discarded and
  the resource stays removed.
\<close>

theorem onParseSucceeded_stale:
  "(\<not> qmap_contains (m_active_parse_tasks s) ticket \<longrightarrow>
      onParseSucceeded ticket resource_id parsed s = s)
   \<and> map internal_id (m_resources (onParseSucceeded ticket resource_id parsed s)) =
       map internal_id (m_resources s)
   \<and> (reachable (s, running) \<and> map_of (m_active_parse_tasks s) ticket = Some resource_id \<longrightarrow>
        onParseSucceeded ticket resource_id parsed (removeResource resource_id s) =
          removeResource resource_id s
        \<and> resource_id \<notin> set (map internal_id (m_resources (removeResource resource_id s))))"
proof -
  have a: "\<not> qmap_contains (m_active_parse_tasks s) ticket \<longrightarrow>
      onParseSucceeded ticket resource_id parsed s = s"
    by (simp add: onParseSucceeded_def)
  have b: "map internal_id (m_resources (onParseSucceeded ticket resource_id parsed s)) =
       map internal_id (m_resources s)"
    by (simp add: onParseSucceeded_def comp_def)
  have c: "onParseSucceeded ticket resource_id parsed (removeResource resource_id s) =
          removeResource resource_id s
        \<and> resource_id \<notin> set (map internal_id (m_resources (removeResource resource_id s)))"
    if "reachable (s, running)" "map_of (m_active_parse_tasks s) ticket = Some resource_id"
  proof -
    from that(1) have "sorted_wrt (<) (map fst (m_active_parse_tasks s))"
      using reachable_invariant by blast
    from map_of_filter_snd [OF this that(2)]
    have "\<not> qmap_contains (m_active_parse_tasks (removeResource resource_id s)) ticket"
      by (simp add: removeResource_def Let_def qmap_contains_def)
    then show ?thesis
      by (auto simp: onParseSucceeded_def removeResource_def Let_def)
  qed
  from a b c show ?thesis by blast
qed

theorem onParseSucceeded_stale_witness:
  "onParseSucceeded 0 ''mods/a.jar'' None (initial_model ''mods'') = initial_model ''mods''
   \<and> onParseSucceeded 0 ''mods/a.jar'' None
        (removeResource ''mods/a.jar''
          (resolveResource (\<lambda>r. True)
            \<lparr>internal_id = ''mods/a.jar'', fileinfo = ''/game/mods/a.jar'', metadata = None,
             parse_state = Unparsed\<rparr>
            (insertResource
              \<lparr>internal_id = ''mods/a.jar'', fileinfo = ''/game/mods/a.jar'', metadata = None,
               parse_state = Unparsed\<rparr>
              (initial_model ''mods'')))) =
       removeResource ''mods/a.jar''
          (resolveResource (\<lambda>r. True)
            \<lparr>internal_id = ''mods/a.jar'', fileinfo = ''/game/mods/a.jar'', metadata = None,
             parse_state = Unparsed\<rparr>
            (insertResource
              \<lparr>internal_id = ''mods/a.jar'', fileinfo = ''/game/mods/a.jar'', metadata = None,
               parse_state = Unparsed\<rparr>
              (initial_model ''mods'')))"
proof -
  let ?res = "\<lparr>internal_id = ''mods/a.jar'', fileinfo = ''/game/mods/a.jar'', metadata = None,
             parse_state = Unparsed\<rparr>"
  let ?s = "resolveResource (\<lambda>r. True) ?res (insertResource ?res (initial_model ''mods''))"
  have r: "reachable (?s, [])"
    by (intro reachable_resolve reachable_insert reachable_initial)
  have m: "map_of (m_active_parse_tasks ?s) 0 = Some ''mods/a.jar''"
    by (simp add: resolveResource_def insertResource_def initial_model_def Let_def)
  have e: "\<not> qmap_contains (m_active_parse_tasks (initial_model ''mods'')) 0"
    by (simp add: qmap_contains_def initial_model_def)
  show ?thesis
    using onParseSucceeded_stale [of "initial_model ''mods''" 0 "''mods/a.jar''" None "[]"]
      onParseSucceeded_stale [of ?s 0 "''mods/a.jar''" None "[]"] r m e
    by blast
qed

section \<open>Properties of the export task\<close>

lemma jget_qmap_insert:
  "jget (JObject (qmap_insert k v m)) k' = (if k' = k then v else jget (JObject m) k')"
  by (simp add: jget_def map_of_qmap_insert)

lemma jget_empty: "jget (JObject []) k = JUndefined"
  by (simp add: jget_def)

lemma endsWith_iff: "endsWith s e \<longleftrightarrow> (\<exists>pre. s = pre @ e)"
  unfolding endsWith_def
  by (metis append_take_drop_id append_eq_conv_conj diff_add_inverse2 length_append le_add2)

lemma fileName_disabled:
  "fileName (pre @ ''.disabled'') = fileName pre @ ''.disabled''"
  by (simp add: fileName_def)

lemma suffix_of_disabled: "suffix_of (pre @ ''.disabled'') = ''disabled''"
  by (simp add: suffix_of_def fileName_def Let_def)

lemma completeBaseName_disabled: "completeBaseName (pre @ ''.disabled'') = fileName pre"
  by (simp add: completeBaseName_def fileName_def Let_def)

lemma takeWhile_dropWhile_split:
  "x \<in> set ys \<Longrightarrow> ys = takeWhile (\<lambda>c. c \<noteq> x) ys @ x # tl (dropWhile (\<lambda>c. c \<noteq> x) ys)"
  by (induction ys) auto

lemma suffix_of_endsWith:
  assumes "suffix_of p = ''disabled''"
  shows "endsWith p ''.disabled''"
proof -
  let ?fn = "fileName p"
  from assms have dot: "CHR ''.'' \<in> set ?fn"
    and tw: "takeWhile (\<lambda>c. c \<noteq> CHR ''.'') (rev ?fn) = rev ''disabled''"
    by (auto simp: suffix_of_def Let_def split: if_splits)
  from dot have "CHR ''.'' \<in> set (rev ?fn)" by simp
  from takeWhile_dropWhile_split [OF this] tw
  have "rev ?fn = rev ''disabled'' @ CHR ''.'' # tl (dropWhile (\<lambda>c. c \<noteq> CHR ''.'') (rev ?fn))"
    by simp
  then have "rev (rev ?fn) = rev (rev ''disabled'' @ CHR ''.'' # tl (dropWhile (\<lambda>c. c \<noteq> CHR ''.'') (rev ?fn)))"
    by simp
  then have fn: "?fn = rev (tl (dropWhile (\<lambda>c. c \<noteq> CHR ''.'') (rev ?fn))) @ ''.disabled''"
    by simp
  have "p = rev (dropWhile (\<lambda>c. c \<noteq> CHR ''/'') (rev p)) @ ?fn"
    unfolding fileName_def
    by (metis rev_append rev_rev_ident takeWhile_dropWhile_id)
  with fn have "p = (rev (dropWhile (\<lambda>c. c \<noteq> CHR ''/'') (rev p))
      @ rev (tl (dropWhile (\<lambda>c. c \<noteq> CHR ''.'') (rev ?fn)))) @ ''.disabled''"
    by (metis append_assoc)
  then show ?thesis unfolding endsWith_iff by blast
qed

lemma suffix_of_disabled_iff: "suffix_of p = ''disabled'' \<longleftrightarrow> endsWith p ''.disabled''"
proof
  assume "suffix_of p = ''disabled''"
  then show "endsWith p ''.disabled''" by (rule suffix_of_endsWith)
next
  assume "endsWith p ''.disabled''"
  then obtain pre where "p = pre @ ''.disabled''" unfolding endsWith_iff by blast
  then show "suffix_of p = ''disabled''" by (simp only: suffix_of_disabled)
qed

lemma takeWhile_rev_sep:
  "c \<notin> set b \<Longrightarrow> takeWhile (\<lambda>x. x \<noteq> c) (rev b @ c # r) = rev b"
  by (induction b rule: rev_induct) auto

lemma dropWhile_rev_sep:
  "c \<notin> set b \<Longrightarrow> dropWhile (\<lambda>x. x \<noteq> c) (rev b @ c # r) = c # r"
  by (induction b rule: rev_induct) auto

lemma fileName_under: "CHR ''/'' \<notin> set b \<Longrightarrow> fileName (d @ ''/'' @ b) = b"
  by (simp add: fileName_def takeWhile_rev_sep)

lemma dir_of_under:
  "CHR ''/'' \<notin> set b \<Longrightarrow> d \<noteq> [] \<Longrightarrow> last d \<noteq> CHR ''/'' \<Longrightarrow> dir_of (d @ ''/'' @ b) = d"
  by (simp add: dir_of_def Let_def dropWhile_rev_sep)

lemma stripped_path:
  assumes "CHR ''/'' \<notin> set b" "b \<noteq> []" "d \<noteq> []" "last d \<noteq> CHR ''/''"
  shows "filePath (dir_of (d @ ''/'' @ b @ ''.disabled'')) (completeBaseName (d @ ''/'' @ b @ ''.disabled''))
         = d @ ''/'' @ b"
proof -
  have b': "CHR ''/'' \<notin> set (b @ ''.disabled'')" using assms(1) by simp
  have 1: "dir_of (d @ ''/'' @ b @ ''.disabled'') = d"
    using dir_of_under [OF b' assms(3,4)] by simp
  have "completeBaseName ((d @ ''/'' @ b) @ ''.disabled'') = fileName (d @ ''/'' @ b)"
    by (rule completeBaseName_disabled)
  then have 2: "completeBaseName (d @ ''/'' @ b @ ''.disabled'') = b"
    using fileName_under [OF assms(1), of d] by simp
  have "hd b \<noteq> CHR ''/''" using assms(1,2) by (cases b) auto
  then show ?thesis unfolding 1 2 using assms by (simp add: filePath_def)
qed

lemma fileOut_path:
  "jget (fileOut optional path resolved) ''path'' =
     JString (if optional \<and> endsWith path ''.disabled''
              then filePath (dir_of path) (completeBaseName path) else path)"
  by (simp add: fileOut_def Let_def jget_qmap_insert suffix_of_disabled_iff del: qmap_insert.simps)

lemma fileOut_client:
  "jget (jget (fileOut optional path resolved) ''env'') ''client'' =
     JString (if optional \<and> endsWith path ''.disabled'' then ''optional'' else ''required'')"
  by (simp add: fileOut_def Let_def jget_qmap_insert jget_empty suffix_of_disabled_iff
      del: qmap_insert.simps)

lemma fileOut_server:
  "jget (jget (fileOut optional path resolved) ''env'') ''server'' =
     JString (if file_side resolved = ClientSide then ''unsupported''
              else if optional \<and> endsWith path ''.disabled'' then ''optional'' else ''required'')"
  by (simp add: fileOut_def Let_def jget_qmap_insert jget_empty suffix_of_disabled_iff
      del: qmap_insert.simps)

lemma generateIndex_files:
  "jget (generateIndex s) ''files'' =
     JArray (map (\<lambda>(path, resolved). fileOut (optionalFiles s) path resolved) (resolvedFiles s))"
  by (simp add: generateIndex_def Let_def jget_qmap_insert del: qmap_insert.simps)

lemma fileName_completeBaseName:
  "endsWith path ''.disabled'' \<Longrightarrow> fileName path = completeBaseName path @ ''.disabled''"
  unfolding endsWith_iff
  by (auto simp only: fileName_disabled completeBaseName_disabled)

text \<open>
  Claim C8. The files of the manifest are the entries of the resolved files, one each.
  When optional files are handled and the path ends in \<open>.disabled\<close>, the path of the
  entry is the file of the complete base name (the file name without the final
  \<open>.disabled\<close>) in the directory of the path, which for a path \<open>dir/name.disabled\<close> is
  \<open>dir/name\<close>, and client and server are optional; otherwise the path is kept and both
  are required. On top of that the server is unsupported for a file that is client side
  only, while the client is never unsupported, also not for a server side file.
\<close>

theorem generateIndex_file_entries:
  "jget (generateIndex s) ''files'' =
     JArray (map (\<lambda>(path, resolved). fileOut (optionalFiles s) path resolved) (resolvedFiles s))
   \<and> jget (fileOut optional path resolved) ''path'' =
       JString (if optional \<and> endsWith path ''.disabled''
                then filePath (dir_of path) (completeBaseName path) else path)
   \<and> (endsWith path ''.disabled'' \<longrightarrow> fileName path = completeBaseName path @ ''.disabled'')
   \<and> (path = d @ ''/'' @ b @ ''.disabled'' \<and> d \<noteq> [] \<and> last d \<noteq> CHR ''/''
        \<and> b \<noteq> [] \<and> CHR ''/'' \<notin> set b \<longrightarrow>
        filePath (dir_of path) (completeBaseName path) = d @ ''/'' @ b)
   \<and> jget (jget (fileOut optional path resolved) ''env'') ''client'' =
       JString (if optional \<and> endsWith path ''.disabled'' then ''optional'' else ''required'')
   \<and> jget (jget (fileOut optional path resolved) ''env'') ''server'' =
       JString (if file_side resolved = ClientSide then ''unsupported''
                else if optional \<and> endsWith path ''.disabled'' then ''optional''
                else ''required'')
   \<and> (file_side resolved = ServerSide \<longrightarrow>
        jget (jget (fileOut optional path resolved) ''env'') ''client'' \<noteq> JString ''unsupported'')"
proof -
  have "path = d @ ''/'' @ b @ ''.disabled'' \<and> d \<noteq> [] \<and> last d \<noteq> CHR ''/''
        \<and> b \<noteq> [] \<and> CHR ''/'' \<notin> set b \<longrightarrow>
        filePath (dir_of path) (completeBaseName path) = d @ ''/'' @ b"
    using stripped_path [of b d] by blast
  moreover have "jget (jget (fileOut optional path resolved) ''env'') ''client'' \<noteq> JString ''unsupported''"
    by (simp add: fileOut_client)
  ultimately show ?thesis
    using generateIndex_files [of s] fileOut_path [of optional path resolved]
      fileOut_client [of optional path resolved] fileOut_server [of optional path resolved]
      fileName_completeBaseName [of path]
    by blast
qed

theorem generateIndex_file_entries_witness:
  "jget (fileOut True ''mods/a.jar.disabled''
          \<lparr>sha1 = ''1'', sha512 = ''2'', file_url = ''u'', file_size = 10, file_side = ServerSide\<rparr>)
        ''path'' = JString ''mods/a.jar''
   \<and> fileName ''mods/a.jar.disabled'' = completeBaseName ''mods/a.jar.disabled'' @ ''.disabled''
   \<and> jget (jget (fileOut True ''mods/a.jar.disabled''
          \<lparr>sha1 = ''1'', sha512 = ''2'', file_url = ''u'', file_size = 10, file_side = ServerSide\<rparr>)
        ''env'') ''client'' = JString ''optional''
   \<and> jget (jget (fileOut True ''mods/a.jar.disabled''
          \<lparr>sha1 = ''1'', sha512 = ''2'', file_url = ''u'', file_size = 10, file_side = ServerSide\<rparr>)
        ''env'') ''server'' = JString ''optional''"
proof -
  let ?P = "''mods/a.jar.disabled''"
  let ?R = "\<lparr>sha1 = ''1'', sha512 = ''2'', file_url = ''u'', file_size = 10, file_side = ServerSide\<rparr>"
  note T = generateIndex_file_entries [of "sample_task (\<lambda>p. False)" True ?P ?R "''mods''" "''a.jar''"]
  have e: "endsWith ?P ''.disabled''"
    by (simp add: endsWith_def)
  have p: "?P = ''mods'' @ ''/'' @ ''a.jar'' @ ''.disabled''
     \<and> ''mods'' \<noteq> [] \<and> last ''mods'' \<noteq> CHR ''/'' \<and> ''a.jar'' \<noteq> [] \<and> CHR ''/'' \<notin> set ''a.jar''"
    by simp
  from T p have "filePath (dir_of ?P) (completeBaseName ?P) = ''mods'' @ ''/'' @ ''a.jar''"
    by blast
  then have f: "filePath (dir_of ?P) (completeBaseName ?P) = ''mods/a.jar''"
    by simp
  from T have "jget (fileOut True ?P ?R) ''path'' =
       JString (if True \<and> endsWith ?P ''.disabled''
                then filePath (dir_of ?P) (completeBaseName ?P) else ?P)"
    by blast
  with e f have 1: "jget (fileOut True ?P ?R) ''path'' = JString ''mods/a.jar''"
    by (simp only: simp_thms if_True)
  from T e have 2: "fileName ?P = completeBaseName ?P @ ''.disabled''"
    by blast
  from T have "jget (jget (fileOut True ?P ?R) ''env'') ''client'' =
       JString (if True \<and> endsWith ?P ''.disabled'' then ''optional'' else ''required'')"
    by blast
  with e have 3: "jget (jget (fileOut True ?P ?R) ''env'') ''client'' = JString ''optional''"
    by (simp only: simp_thms if_True)
  from T have "jget (jget (fileOut True ?P ?R) ''env'') ''server'' =
       JString (if file_side ?R = ClientSide then ''unsupported''
                else if True \<and> endsWith ?P ''.disabled'' then ''optional''
                else ''required'')"
    by blast
  with e have 4: "jget (jget (fileOut True ?P ?R) ''env'') ''server'' = JString ''optional''"
    by simp
  from 1 2 3 4 show ?thesis by blast
qed

text \<open>
  Claim C10, as the code has it. Without the handling of optional files the path of an
  entry is the path of the resolved file, \<open>.disabled\<close> included, the client is required,
  and the server is required unless the file is client side only, when it is
  unsupported; neither is ever optional.
\<close>

theorem fileOut_not_optional:
  "jget (fileOut False path resolved) ''path'' = JString path
   \<and> jget (jget (fileOut False path resolved) ''env'') ''client'' = JString ''required''
   \<and> jget (jget (fileOut False path resolved) ''env'') ''server'' =
       JString (if file_side resolved = ClientSide then ''unsupported'' else ''required'')"
  by (simp add: fileOut_path fileOut_client fileOut_server)

theorem fileOut_not_optional_witness:
  "jget (fileOut False ''mods/b.jar.disabled''
          \<lparr>sha1 = ''1'', sha512 = ''2'', file_url = ''u'', file_size = 10, file_side = NoSide\<rparr>)
        ''path'' = JString ''mods/b.jar.disabled''
   \<and> jget (jget (fileOut False ''mods/b.jar.disabled''
          \<lparr>sha1 = ''1'', sha512 = ''2'', file_url = ''u'', file_size = 10, file_side = NoSide\<rparr>)
        ''env'') ''server'' = JString ''required''"
  using fileOut_not_optional [of "''mods/b.jar.disabled''"
      "\<lparr>sha1 = ''1'', sha512 = ''2'', file_url = ''u'', file_size = 10, file_side = NoSide\<rparr>"]
  by simp

text \<open>
  The claim as the specification words it fails for a disabled file that is client side
  only: its server is unsupported, not required.
\<close>

theorem fileOut_not_optional_counterexample:
  "endsWith ''mods/a.jar.disabled'' ''.disabled''
   \<and> jget (jget (fileOut False ''mods/a.jar.disabled''
          \<lparr>sha1 = ''declared-sha1-of-a'', sha512 = ''sha512:bytes of a'',
           file_url = ''https://cdn.modrinth.com/data/a.jar'', file_size = 10,
           file_side = ClientSide\<rparr>) ''env'') ''server'' = JString ''unsupported''
   \<and> jget (jget (fileOut False ''mods/a.jar.disabled''
          \<lparr>sha1 = ''declared-sha1-of-a'', sha512 = ''sha512:bytes of a'',
           file_url = ''https://cdn.modrinth.com/data/a.jar'', file_size = 10,
           file_side = ClientSide\<rparr>) ''env'') ''server'' \<noteq> JString ''required''"
  by (simp add: fileOut_server endsWith_def)

lemma set_qmap_keys: "set (qmap_keys m) = fst ` set m"
  by (simp add: qmap_keys_def)

text \<open>
  Claim C9. The archive task that \<^verbatim>\<open>buildZip\<close> starts is built over all the collected
  files with the prefix \<open>overrides/\<close>, excludes exactly the paths that are keys of the
  resolved files, and has the generated manifest as its one extra file, named
  \<open>modrinth.index.json\<close>.
\<close>

theorem buildZip_archive:
  "\<exists>z. task (buildZip s) = Some (ExportToZip z)
     \<and> zip_files z = files s
     \<and> zip_dir z = gameRoot s
     \<and> destinationPrefix z = ''overrides/''
     \<and> (\<forall>p. p \<in> set (excludeFiles z) \<longleftrightarrow> qmap_contains (resolvedFiles s) p)
     \<and> extraFiles z = [(''modrinth.index.json'', generateIndex s)]"
  by (simp add: buildZip_def qmap_contains_keys)


lemma qmap_insert_not_Nil: "qmap_insert k v m \<noteq> []"
  by (cases m) (auto split: if_splits)

lemma enqueue_staged:
  "enqueue env prefixes resolved file pending =
     (if staged env prefixes resolved file
      then qmap_insert (relativeFilePath env file) (hash_file env file Sha512) pending
      else pending)"
  by (simp add: enqueue_def staged_def Let_def)

lemma fold_enqueue_Nil:
  "fold (enqueue env prefixes resolved) fs pending = [] \<longleftrightarrow>
     pending = [] \<and> \<not> (\<exists>f \<in> set fs. staged env prefixes resolved f)"
  by (induction fs arbitrary: pending) (auto simp: enqueue_staged qmap_insert_not_Nil)

lemma makeApiRequest_task:
  "(\<exists>hashes algorithm. task (makeApiRequest s) = Some (CurrentVersions hashes algorithm))
     \<longleftrightarrow> pendingHashes s \<noteq> []"
  by (simp add: makeApiRequest_def buildZip_def)

text \<open>
  Claim C5. With no pending hash \<^verbatim>\<open>makeApiRequest\<close> issues no request and goes on to
  \<^verbatim>\<open>buildZip\<close>; with pending hashes it requests their versions. So a request is issued
  exactly when a hash is pending; and at the end of \<^verbatim>\<open>collectHashes\<close> exactly when a
  hash was pending before or one of the collected files has been staged.
\<close>

theorem makeApiRequest_request:
  "(pendingHashes s = [] \<longrightarrow> makeApiRequest s = buildZip s)
   \<and> (pendingHashes s \<noteq> [] \<longrightarrow>
        task (makeApiRequest s) = Some (CurrentVersions (qmap_values (pendingHashes s)) ''sha512''))
   \<and> ((\<exists>hashes algorithm. task (makeApiRequest s) = Some (CurrentVersions hashes algorithm))
        \<longleftrightarrow> pendingHashes s \<noteq> [])
   \<and> ((\<exists>hashes algorithm. task (collectHashes env s) = Some (CurrentVersions hashes algorithm))
        \<longleftrightarrow> pendingHashes s \<noteq> []
          \<or> (\<exists>f \<in> set (files s).
               staged env
                 (fst (fold (collectModel env (filter_fn s)) (resourceLists (inst s))
                        ([], resolvedFiles s)))
                 (snd (fold (collectModel env (filter_fn s)) (resourceLists (inst s))
                        ([], resolvedFiles s))) f))"
proof -
  have a: "pendingHashes s = [] \<longrightarrow> makeApiRequest s = buildZip s"
    by (simp add: makeApiRequest_def)
  have b: "pendingHashes s \<noteq> [] \<longrightarrow>
        task (makeApiRequest s) = Some (CurrentVersions (qmap_values (pendingHashes s)) ''sha512'')"
    by (simp add: makeApiRequest_def)
  have c: "(\<exists>hashes algorithm. task (collectHashes env s) = Some (CurrentVersions hashes algorithm))
        \<longleftrightarrow> pendingHashes s \<noteq> []
          \<or> (\<exists>f \<in> set (files s).
               staged env
                 (fst (fold (collectModel env (filter_fn s)) (resourceLists (inst s))
                        ([], resolvedFiles s)))
                 (snd (fold (collectModel env (filter_fn s)) (resourceLists (inst s))
                        ([], resolvedFiles s))) f)"
    unfolding collectHashes_def Let_def makeApiRequest_task
    by (simp add: fold_enqueue_Nil)
  from a b c makeApiRequest_task [of s] show ?thesis by blast
qed

theorem makeApiRequest_request_witness:
  "makeApiRequest (sample_task (\<lambda>p. False)) = buildZip (sample_task (\<lambda>p. False))
   \<and> task (makeApiRequest ((sample_task (\<lambda>p. False))\<lparr>pendingHashes := [(''mods/b.jar'', ''h'')]\<rparr>))
       = Some (CurrentVersions [''h''] ''sha512'')"
proof -
  have 1: "pendingHashes (sample_task (\<lambda>p. False)) = []"
    by (simp add: sample_task_def)
  have 2: "pendingHashes ((sample_task (\<lambda>p. False))\<lparr>pendingHashes := [(''mods/b.jar'', ''h'')]\<rparr>)
      = [(''mods/b.jar'', ''h'')]"
    by simp
  from makeApiRequest_request [of "sample_task (\<lambda>p. False)" sample_env] 1
  have a: "makeApiRequest (sample_task (\<lambda>p. False)) = buildZip (sample_task (\<lambda>p. False))"
    by blast
  from makeApiRequest_request
    [of "(sample_task (\<lambda>p. False))\<lparr>pendingHashes := [(''mods/b.jar'', ''h'')]\<rparr>" sample_env] 2
  have b: "task (makeApiRequest ((sample_task (\<lambda>p. False))\<lparr>pendingHashes := [(''mods/b.jar'', ''h'')]\<rparr>))
       = Some (CurrentVersions [''h''] ''sha512'')"
    by (simp add: qmap_values_def)
  from a b show ?thesis by blast
qed

lemma resolvePending_other:
  "findVersionFile doc (snd e) = None \<or> fst e \<noteq> path \<Longrightarrow>
   map_of (resolvePending doc e resolved) path = map_of resolved path"
  by (auto simp: resolvePending_def map_of_qmap_insert split: option.splits)

lemma fold_resolvePending_unmatched:
  "(\<forall>h. (path, h) \<in> set pending \<longrightarrow> findVersionFile doc h = None) \<Longrightarrow>
   map_of (fold (resolvePending doc) pending resolved) path = map_of resolved path"
proof (induction pending arbitrary: resolved)
  case Nil
  then show ?case by simp
next
  case (Cons e pending)
  have "findVersionFile doc (snd e) = None \<or> fst e \<noteq> path"
    using Cons.prems by (cases e) auto
  then have "map_of (resolvePending doc e resolved) path = map_of resolved path"
    by (rule resolvePending_other)
  moreover have "map_of (fold (resolvePending doc) pending (resolvePending doc e resolved)) path
      = map_of (resolvePending doc e resolved) path"
    using Cons.prems by (intro Cons.IH) auto
  ultimately show ?case by simp
qed

lemma fold_resolvePending_none:
  "(\<forall>e \<in> set pending. findVersionFile doc (snd e) = None) \<Longrightarrow>
   fold (resolvePending doc) pending resolved = resolved"
  by (induction pending arbitrary: resolved) (auto simp: resolvePending_def)


lemma parseApiResponse_Inr:
  "requireDocument env response = Inr doc \<Longrightarrow>
   parseApiResponse env response s =
     buildZip (s\<lparr>task := None,
                resolvedFiles := fold (resolvePending doc) (pendingHashes s) (resolvedFiles s),
                pendingHashes := []\<rparr>)"
  by (simp add: parseApiResponse_def)

lemma buildZip_fields:
  "task_state (buildZip s) = task_state s"
  "resolvedFiles (buildZip s) = resolvedFiles s"
  "task (buildZip s) = Some (ExportToZip
         \<lparr>outputPath = output_file s, zip_dir = gameRoot s, zip_files = files s,
          destinationPrefix = ''overrides/'', followSymlinks = True, utf8Enabled = True,
          extraFiles = [(''modrinth.index.json'', generateIndex s)],
          excludeFiles = qmap_keys (resolvedFiles s)\<rparr>)"
  by (simp_all add: buildZip_def)

text \<open>
  Claim C6. When the response is a document, \<^verbatim>\<open>parseApiResponse\<close> does not fail: it
  goes on to the archive over all the collected files, with the manifest generated from
  the resolved files. A path all of whose pending hashes find no record keeps the entry
  it had, that is none if it had none, and then it is not excluded from the archive.
  When no pending hash finds a record the resolved files are what they were.
\<close>

theorem parseApiResponse_unmatched:
  assumes "requireDocument env response = Inr doc"
  shows "task_state (parseApiResponse env response s) = task_state s
   \<and> (\<exists>z. task (parseApiResponse env response s) = Some (ExportToZip z)
        \<and> zip_files z = files s
        \<and> excludeFiles z = qmap_keys (resolvedFiles (parseApiResponse env response s))
        \<and> extraFiles z =
            [(''modrinth.index.json'',
              generateIndex (s\<lparr>task := None,
                 resolvedFiles := resolvedFiles (parseApiResponse env response s),
                 pendingHashes := []\<rparr>))]
        \<and> (\<forall>path. (\<forall>h. (path, h) \<in> set (pendingHashes s) \<longrightarrow> findVersionFile doc h = None) \<longrightarrow>
              map_of (resolvedFiles (parseApiResponse env response s)) path =
                map_of (resolvedFiles s) path
              \<and> (\<not> qmap_contains (resolvedFiles s) path \<longrightarrow> path \<notin> set (excludeFiles z))))
   \<and> ((\<forall>e \<in> set (pendingHashes s). findVersionFile doc (snd e) = None) \<longrightarrow>
        resolvedFiles (parseApiResponse env response s) = resolvedFiles s)"
proof -
  let ?R = "fold (resolvePending doc) (pendingHashes s) (resolvedFiles s)"
  let ?s' = "s\<lparr>task := None, resolvedFiles := ?R, pendingHashes := []\<rparr>"
  have p: "parseApiResponse env response s = buildZip ?s'"
    using assms by (rule parseApiResponse_Inr)
  have r: "resolvedFiles (parseApiResponse env response s) = ?R"
    unfolding p by (simp add: buildZip_fields)
  have st: "task_state (parseApiResponse env response s) = task_state s"
    unfolding p by (simp add: buildZip_fields)
  let ?z = "\<lparr>outputPath = output_file ?s', zip_dir = gameRoot ?s', zip_files = files ?s',
          destinationPrefix = ''overrides/'', followSymlinks = True, utf8Enabled = True,
          extraFiles = [(''modrinth.index.json'', generateIndex ?s')],
          excludeFiles = qmap_keys (resolvedFiles ?s')\<rparr>"
  have t: "task (parseApiResponse env response s) = Some (ExportToZip ?z)"
    unfolding p by (rule buildZip_fields)
  have z1: "zip_files ?z = files s" by simp
  have z2: "excludeFiles ?z = qmap_keys (resolvedFiles (parseApiResponse env response s))"
    unfolding r by simp
  have z3: "extraFiles ?z = [(''modrinth.index.json'',
              generateIndex (s\<lparr>task := None,
                 resolvedFiles := resolvedFiles (parseApiResponse env response s),
                 pendingHashes := []\<rparr>))]"
    unfolding r by simp
  have z4: "map_of (resolvedFiles (parseApiResponse env response s)) path =
                map_of (resolvedFiles s) path
              \<and> (\<not> qmap_contains (resolvedFiles s) path \<longrightarrow> path \<notin> set (excludeFiles ?z))"
    if u: "\<forall>h. (path, h) \<in> set (pendingHashes s) \<longrightarrow> findVersionFile doc h = None" for path
  proof -
    have m: "map_of ?R path = map_of (resolvedFiles s) path"
      using u by (rule fold_resolvePending_unmatched)
    have "path \<notin> set (qmap_keys ?R)" if "\<not> qmap_contains (resolvedFiles s) path"
    proof -
      from that have "map_of (resolvedFiles s) path = None" by (simp add: qmap_contains_def)
      with m have "map_of ?R path = None" by simp
      then have "path \<notin> fst ` set ?R" by (simp add: map_of_eq_None_iff)
      then show ?thesis by (simp add: qmap_keys_def)
    qed
    with m show ?thesis unfolding r by simp
  qed
  have n: "(\<forall>e \<in> set (pendingHashes s). findVersionFile doc (snd e) = None) \<longrightarrow>
        resolvedFiles (parseApiResponse env response s) = resolvedFiles s"
    unfolding r by (simp add: fold_resolvePending_none)
  from t z1 z2 z3 z4 have "\<exists>z. task (parseApiResponse env response s) = Some (ExportToZip z)
        \<and> zip_files z = files s
        \<and> excludeFiles z = qmap_keys (resolvedFiles (parseApiResponse env response s))
        \<and> extraFiles z =
            [(''modrinth.index.json'',
              generateIndex (s\<lparr>task := None,
                 resolvedFiles := resolvedFiles (parseApiResponse env response s),
                 pendingHashes := []\<rparr>))]
        \<and> (\<forall>path. (\<forall>h. (path, h) \<in> set (pendingHashes s) \<longrightarrow> findVersionFile doc h = None) \<longrightarrow>
              map_of (resolvedFiles (parseApiResponse env response s)) path =
                map_of (resolvedFiles s) path
              \<and> (\<not> qmap_contains (resolvedFiles s) path \<longrightarrow> path \<notin> set (excludeFiles z)))"
    by blast
  with st n show ?thesis by blast
qed


theorem parseApiResponse_unmatched_witness:
  "task_state (parseApiResponse sample_env ''nothing''
      ((sample_task (\<lambda>p. False))\<lparr>files := [''/game/mods/b.jar''],
         pendingHashes := [(''mods/b.jar'', ''sha512:/game/mods/b.jar'')]\<rparr>)) = Running
   \<and> resolvedFiles (parseApiResponse sample_env ''nothing''
      ((sample_task (\<lambda>p. False))\<lparr>files := [''/game/mods/b.jar''],
         pendingHashes := [(''mods/b.jar'', ''sha512:/game/mods/b.jar'')]\<rparr>)) = []
   \<and> (\<exists>z. task (parseApiResponse sample_env ''nothing''
      ((sample_task (\<lambda>p. False))\<lparr>files := [''/game/mods/b.jar''],
         pendingHashes := [(''mods/b.jar'', ''sha512:/game/mods/b.jar'')]\<rparr>)) = Some (ExportToZip z)
        \<and> zip_files z = [''/game/mods/b.jar'']
        \<and> ''mods/b.jar'' \<notin> set (excludeFiles z))"
proof -
  let ?s = "(sample_task (\<lambda>p. False))\<lparr>files := [''/game/mods/b.jar''],
         pendingHashes := [(''mods/b.jar'', ''sha512:/game/mods/b.jar'')]\<rparr>"
  have d: "requireDocument sample_env ''nothing'' = Inr (JObject [])"
    by (simp add: sample_env_def)
  note T = parseApiResponse_unmatched [OF d, of ?s]
  have f: "findVersionFile (JObject []) h = None" for h
    by (simp add: findVersionFile_def jget_def)
  have s: "task_state ?s = Running" "resolvedFiles ?s = []" "files ?s = [''/game/mods/b.jar'']"
    by (simp_all add: sample_task_def)
  have c: "\<not> qmap_contains (resolvedFiles ?s) ''mods/b.jar''"
    by (simp add: s qmap_contains_def)
  from T s(1) have 1: "task_state (parseApiResponse sample_env ''nothing'' ?s) = Running"
    by simp
  from T f s(2) have 2: "resolvedFiles (parseApiResponse sample_env ''nothing'' ?s) = []"
    by simp
  from T obtain z where z: "task (parseApiResponse sample_env ''nothing'' ?s) = Some (ExportToZip z)"
    "zip_files z = files ?s"
    "\<forall>path. (\<forall>h. (path, h) \<in> set (pendingHashes ?s) \<longrightarrow> findVersionFile (JObject []) h = None) \<longrightarrow>
        map_of (resolvedFiles (parseApiResponse sample_env ''nothing'' ?s)) path =
          map_of (resolvedFiles ?s) path
        \<and> (\<not> qmap_contains (resolvedFiles ?s) path \<longrightarrow> path \<notin> set (excludeFiles z))"
    by blast
  from z(3) f c have "''mods/b.jar'' \<notin> set (excludeFiles z)" by blast
  with z(1,2) s(3) have 3: "\<exists>z. task (parseApiResponse sample_env ''nothing'' ?s) = Some (ExportToZip z)
        \<and> zip_files z = [''/game/mods/b.jar'']
        \<and> ''mods/b.jar'' \<notin> set (excludeFiles z)"
    by auto
  from 1 2 3 show ?thesis by blast
qed

lemma resolveFromIndex_body:
  assumes "metadata resource = Some md"
    and "\<not> url_isEmpty (url md)"
    and "url_host (url md) \<in> set (MODRINTH_MRPACK_HOSTS env)"
  shows "(flt (relativeFilePath env (fileinfo resource)) \<longrightarrow>
           resolveFromIndex env flt resource resolved = resolved)
   \<and> (\<not> flt (relativeFilePath env (fileinfo resource)) \<longrightarrow>
        (\<forall>data sz. readFile env (fileinfo resource) = FileContents data sz \<longrightarrow>
           map_of (resolveFromIndex env flt resource resolved)
             (relativeFilePath env (fileinfo resource)) =
           Some \<lparr>sha1 = (if hash_format md = ''sha1'' \<and> hash md \<noteq> [] then hash md
                         else hash_data env data Sha1),
                 sha512 = (if hash_format md = ''sha512'' \<and> hash md \<noteq> [] then hash md
                           else hash_data env data Sha512),
                 file_url = url_encoded (url md), file_size = sz, file_side = side md\<rparr>)
        \<and> (readFile env (fileinfo resource) = OpenFailed
             \<or> readFile env (fileinfo resource) = ReadFailed \<longrightarrow>
            resolveFromIndex env flt resource resolved = resolved
            \<and> fold (resolveFromIndex env flt) (resource # rest) resolved =
                fold (resolveFromIndex env flt) rest resolved))"
  using assms
  by (auto simp: resolveFromIndex_def Let_def map_of_qmap_insert)

lemma resolveFromIndex_other:
  "p \<noteq> relativeFilePath env (fileinfo r) \<Longrightarrow>
   map_of (resolveFromIndex env flt r acc) p = map_of acc p"
  by (simp add: resolveFromIndex_def Let_def map_of_qmap_insert
      split: option.splits FileRead.splits)

lemma resolveFromIndex_cong:
  "map_of acc1 p = map_of acc2 p \<Longrightarrow>
   map_of (resolveFromIndex env flt r acc1) p = map_of (resolveFromIndex env flt r acc2) p"
  by (simp add: resolveFromIndex_def Let_def map_of_qmap_insert
      split: option.splits FileRead.splits)

lemma resolveFromIndex_twice:
  "map_of (resolveFromIndex env flt r (resolveFromIndex env flt r acc)) p =
   map_of (resolveFromIndex env flt r acc) p"
  by (simp add: resolveFromIndex_def Let_def map_of_qmap_insert
      split: option.splits FileRead.splits)

lemma fold_resolveFromIndex_other:
  "\<forall>r \<in> set rs. relativeFilePath env (fileinfo r) \<noteq> p \<Longrightarrow>
   map_of (fold (resolveFromIndex env flt) rs acc) p = map_of acc p"
  by (induction rs arbitrary: acc) (auto simp: resolveFromIndex_other)

lemma fold_resolveFromIndex_unique:
  assumes "r \<in> set rs"
    and "\<forall>r' \<in> set rs. relativeFilePath env (fileinfo r') = relativeFilePath env (fileinfo r)
           \<longrightarrow> r' = r"
  shows "map_of (fold (resolveFromIndex env flt) rs acc) (relativeFilePath env (fileinfo r)) =
         map_of (resolveFromIndex env flt r acc) (relativeFilePath env (fileinfo r))"
  using assms
proof (induction rs arbitrary: acc)
  case Nil
  then show ?case by simp
next
  case (Cons x xs)
  let ?q = "relativeFilePath env (fileinfo r)"
  let ?F = "resolveFromIndex env flt"
  have u: "\<forall>r' \<in> set xs. relativeFilePath env (fileinfo r') = ?q \<longrightarrow> r' = r"
    using Cons.prems(2) by simp
  show ?case
  proof (cases "r \<in> set xs")
    case True
    have "map_of (fold ?F xs (?F x acc)) ?q = map_of (?F r (?F x acc)) ?q"
      using Cons.IH [OF True u] .
    also have "\<dots> = map_of (?F r acc) ?q"
    proof (cases "x = r")
      case True
      then show ?thesis by (simp add: resolveFromIndex_twice)
    next
      case False
      then have "relativeFilePath env (fileinfo x) \<noteq> ?q"
        using Cons.prems(2) by auto
      then have "map_of (?F x acc) ?q = map_of acc ?q"
        by (intro resolveFromIndex_other) simp
      then show ?thesis by (rule resolveFromIndex_cong)
    qed
    finally show ?thesis by simp
  next
    case False
    with Cons.prems(1) have x: "x = r" by simp
    have "\<forall>r' \<in> set xs. relativeFilePath env (fileinfo r') \<noteq> ?q"
      using u False by blast
    then have "map_of (fold ?F xs (?F r acc)) ?q = map_of (?F r acc) ?q"
      by (rule fold_resolveFromIndex_other)
    with x show ?thesis by simp
  qed
qed

lemma collectModel_fold:
  "snd (fold (collectModel env flt) models acc) =
     fold (resolveFromIndex env flt) (concat (map m_resources models)) (snd acc)"
  by (induction models arbitrary: acc) (simp_all add: collectModel_def)

lemma makeApiRequest_keeps:
  "resolvedFiles (makeApiRequest s) = resolvedFiles s"
  "task_state (makeApiRequest s) = task_state s"
  by (simp_all add: makeApiRequest_def buildZip_def)

lemma collectHashes_resolvedFiles:
  "resolvedFiles (collectHashes env s) =
     fold (resolveFromIndex env (filter_fn s))
       (concat (map m_resources (resourceLists (inst s)))) (resolvedFiles s)"
  by (simp add: collectHashes_def Let_def makeApiRequest_keeps collectModel_fold)

lemma collectHashes_task_state: "task_state (collectHashes env s) = task_state s"
  by (simp add: collectHashes_def Let_def makeApiRequest_keeps)


text \<open>
  Claim C7, as the code has it. For a resource with metadata whose URL is not empty and
  has an allowed host: when the filter excludes its path, nothing is resolved for it;
  otherwise, when its file is read, it is resolved with the declared hash for the
  algorithm that the metadata names, if that hash is not empty, and with the hash of the
  bytes of the file for the other algorithm (and for the named one when the declared hash
  is empty); and when the file cannot be opened or read, nothing is resolved for it and
  the loop goes on with the next resource. This holds of the body of the loop, and of
  the whole of \<^verbatim>\<open>collectHashes\<close> for every resource of the models of the instance
  whose relative path no other of these resources has: the resolved files at the end of
  the stage hold that entry under its path, or what they held before the stage when the
  resource is passed over, and the stage does not fail.
\<close>

theorem collectHashes_reuse:
  assumes "metadata resource = Some md"
    and "\<not> url_isEmpty (url md)"
    and "url_host (url md) \<in> set (MODRINTH_MRPACK_HOSTS env)"
  shows "(flt (relativeFilePath env (fileinfo resource)) \<longrightarrow>
           resolveFromIndex env flt resource resolved = resolved)
   \<and> (\<not> flt (relativeFilePath env (fileinfo resource)) \<longrightarrow>
        (\<forall>data sz. readFile env (fileinfo resource) = FileContents data sz \<longrightarrow>
           map_of (resolveFromIndex env flt resource resolved)
             (relativeFilePath env (fileinfo resource)) =
           Some \<lparr>sha1 = (if hash_format md = ''sha1'' \<and> hash md \<noteq> [] then hash md
                         else hash_data env data Sha1),
                 sha512 = (if hash_format md = ''sha512'' \<and> hash md \<noteq> [] then hash md
                           else hash_data env data Sha512),
                 file_url = url_encoded (url md), file_size = sz, file_side = side md\<rparr>)
        \<and> (readFile env (fileinfo resource) = OpenFailed
             \<or> readFile env (fileinfo resource) = ReadFailed \<longrightarrow>
            resolveFromIndex env flt resource resolved = resolved
            \<and> fold (resolveFromIndex env flt) (resource # rest) resolved =
                fold (resolveFromIndex env flt) rest resolved))
   \<and> (resource \<in> set (concat (map m_resources (resourceLists (inst s))))
        \<and> (\<forall>r \<in> set (concat (map m_resources (resourceLists (inst s)))).
              relativeFilePath env (fileinfo r) = relativeFilePath env (fileinfo resource)
              \<longrightarrow> r = resource) \<longrightarrow>
        task_state (collectHashes env s) = task_state s
        \<and> (filter_fn s (relativeFilePath env (fileinfo resource)) \<longrightarrow>
             map_of (resolvedFiles (collectHashes env s))
               (relativeFilePath env (fileinfo resource)) =
             map_of (resolvedFiles s) (relativeFilePath env (fileinfo resource)))
        \<and> (\<not> filter_fn s (relativeFilePath env (fileinfo resource)) \<longrightarrow>
             (\<forall>data sz. readFile env (fileinfo resource) = FileContents data sz \<longrightarrow>
                map_of (resolvedFiles (collectHashes env s))
                  (relativeFilePath env (fileinfo resource)) =
                Some \<lparr>sha1 = (if hash_format md = ''sha1'' \<and> hash md \<noteq> [] then hash md
                              else hash_data env data Sha1),
                      sha512 = (if hash_format md = ''sha512'' \<and> hash md \<noteq> [] then hash md
                                else hash_data env data Sha512),
                      file_url = url_encoded (url md), file_size = sz,
                      file_side = side md\<rparr>)
             \<and> (readFile env (fileinfo resource) = OpenFailed
                  \<or> readFile env (fileinfo resource) = ReadFailed \<longrightarrow>
                 map_of (resolvedFiles (collectHashes env s))
                   (relativeFilePath env (fileinfo resource)) =
                 map_of (resolvedFiles s) (relativeFilePath env (fileinfo resource)))))"
proof -
  let ?q = "relativeFilePath env (fileinfo resource)"
  let ?rs = "concat (map m_resources (resourceLists (inst s)))"
  note body = resolveFromIndex_body [OF assms]
  have stage: "map_of (resolvedFiles (collectHashes env s)) ?q =
      map_of (resolveFromIndex env (filter_fn s) resource (resolvedFiles s)) ?q"
    if "resource \<in> set ?rs"
      and "\<forall>r \<in> set ?rs. relativeFilePath env (fileinfo r) = ?q \<longrightarrow> r = resource"
    unfolding collectHashes_resolvedFiles
    using that by (rule fold_resolveFromIndex_unique)
  have st: "task_state (collectHashes env s) = task_state s"
    by (rule collectHashes_task_state)
  have B: "task_state (collectHashes env s) = task_state s
        \<and> (filter_fn s ?q \<longrightarrow>
             map_of (resolvedFiles (collectHashes env s)) ?q = map_of (resolvedFiles s) ?q)
        \<and> (\<not> filter_fn s ?q \<longrightarrow>
             (\<forall>data sz. readFile env (fileinfo resource) = FileContents data sz \<longrightarrow>
                map_of (resolvedFiles (collectHashes env s)) ?q =
                Some \<lparr>sha1 = (if hash_format md = ''sha1'' \<and> hash md \<noteq> [] then hash md
                              else hash_data env data Sha1),
                      sha512 = (if hash_format md = ''sha512'' \<and> hash md \<noteq> [] then hash md
                                else hash_data env data Sha512),
                      file_url = url_encoded (url md), file_size = sz,
                      file_side = side md\<rparr>)
             \<and> (readFile env (fileinfo resource) = OpenFailed
                  \<or> readFile env (fileinfo resource) = ReadFailed \<longrightarrow>
                 map_of (resolvedFiles (collectHashes env s)) ?q = map_of (resolvedFiles s) ?q))"
    if "resource \<in> set ?rs"
      and "\<forall>r \<in> set ?rs. relativeFilePath env (fileinfo r) = ?q \<longrightarrow> r = resource"
  proof -
    note eq = stage [OF that]
    from body [of "filter_fn s" "resolvedFiles s" "[]"]
    have "(filter_fn s ?q \<longrightarrow>
             map_of (resolveFromIndex env (filter_fn s) resource (resolvedFiles s)) ?q =
               map_of (resolvedFiles s) ?q)
        \<and> (\<not> filter_fn s ?q \<longrightarrow>
             (\<forall>data sz. readFile env (fileinfo resource) = FileContents data sz \<longrightarrow>
                map_of (resolveFromIndex env (filter_fn s) resource (resolvedFiles s)) ?q =
                Some \<lparr>sha1 = (if hash_format md = ''sha1'' \<and> hash md \<noteq> [] then hash md
                              else hash_data env data Sha1),
                      sha512 = (if hash_format md = ''sha512'' \<and> hash md \<noteq> [] then hash md
                                else hash_data env data Sha512),
                      file_url = url_encoded (url md), file_size = sz,
                      file_side = side md\<rparr>)
             \<and> (readFile env (fileinfo resource) = OpenFailed
                  \<or> readFile env (fileinfo resource) = ReadFailed \<longrightarrow>
                 map_of (resolveFromIndex env (filter_fn s) resource (resolvedFiles s)) ?q =
                   map_of (resolvedFiles s) ?q))"
      by metis
    then show ?thesis unfolding eq using st by blast
  qed
  from body [of flt resolved rest] B show ?thesis by blast
qed


theorem collectHashes_reuse_witness:
  "map_of (resolvedFiles (collectHashes sample_env
      ((sample_task (\<lambda>p. False))\<lparr>inst :=
        \<lparr>resourceLists =
           [(initial_model ''/game/mods'')\<lparr>m_resources :=
              [sample_resource\<lparr>fileinfo := ''/game/mods/c.jar''\<rparr>, sample_resource]\<rparr>],
         getComponent = (\<lambda>uid. None)\<rparr>\<rparr>))) ''mods/a.jar.disabled'' =
     Some \<lparr>sha1 = ''declared-sha1-of-a'', sha512 = ''sha512:bytes of a'',
           file_url = ''https://cdn.modrinth.com/data/a.jar'', file_size = 10,
           file_side = ClientSide\<rparr>
   \<and> map_of (resolvedFiles (collectHashes sample_env
      ((sample_task (\<lambda>p. False))\<lparr>inst :=
        \<lparr>resourceLists =
           [(initial_model ''/game/mods'')\<lparr>m_resources :=
              [sample_resource\<lparr>fileinfo := ''/game/mods/c.jar''\<rparr>, sample_resource]\<rparr>],
         getComponent = (\<lambda>uid. None)\<rparr>\<rparr>))) ''mods/c.jar'' = None
   \<and> task_state (collectHashes sample_env
      ((sample_task (\<lambda>p. False))\<lparr>inst :=
        \<lparr>resourceLists =
           [(initial_model ''/game/mods'')\<lparr>m_resources :=
              [sample_resource\<lparr>fileinfo := ''/game/mods/c.jar''\<rparr>, sample_resource]\<rparr>],
         getComponent = (\<lambda>uid. None)\<rparr>\<rparr>)) = Running
   \<and> map_of (resolvedFiles (collectHashes sample_env
      ((sample_task (\<lambda>p. True))\<lparr>inst :=
        \<lparr>resourceLists =
           [(initial_model ''/game/mods'')\<lparr>m_resources :=
              [sample_resource\<lparr>fileinfo := ''/game/mods/c.jar''\<rparr>, sample_resource]\<rparr>],
         getComponent = (\<lambda>uid. None)\<rparr>\<rparr>))) ''mods/a.jar.disabled'' = None
   \<and> resolveFromIndex sample_env (\<lambda>p. False)
        (sample_resource\<lparr>fileinfo := ''/game/mods/c.jar''\<rparr>) [] = []
   \<and> resolveFromIndex sample_env (\<lambda>p. True) sample_resource [] = []"
proof -
  let ?md = "\<lparr>url = \<lparr>url_host = ''cdn.modrinth.com'',
                       url_encoded = ''https://cdn.modrinth.com/data/a.jar''\<rparr>,
               hash = ''declared-sha1-of-a'', hash_format = ''sha1'', side = ClientSide\<rparr>"
  let ?rc = "sample_resource\<lparr>fileinfo := ''/game/mods/c.jar''\<rparr>"
  let ?s0 = "((sample_task (\<lambda>p. False))\<lparr>inst :=
        \<lparr>resourceLists =
           [(initial_model ''/game/mods'')\<lparr>m_resources :=
              [sample_resource\<lparr>fileinfo := ''/game/mods/c.jar''\<rparr>, sample_resource]\<rparr>],
         getComponent = (\<lambda>uid. None)\<rparr>\<rparr>)"
  let ?s1 = "((sample_task (\<lambda>p. True))\<lparr>inst :=
        \<lparr>resourceLists =
           [(initial_model ''/game/mods'')\<lparr>m_resources :=
              [sample_resource\<lparr>fileinfo := ''/game/mods/c.jar''\<rparr>, sample_resource]\<rparr>],
         getComponent = (\<lambda>uid. None)\<rparr>\<rparr>)"
  have m: "metadata sample_resource = Some ?md" "metadata ?rc = Some ?md"
    by (simp_all add: sample_resource_def)
  have u: "\<not> url_isEmpty (url ?md)"
    by (simp add: url_isEmpty_def)
  have h: "url_host (url ?md) \<in> set (MODRINTH_MRPACK_HOSTS sample_env)"
    by (simp add: sample_env_def)
  have rel: "relativeFilePath sample_env (fileinfo sample_resource) = ''mods/a.jar.disabled''"
    "relativeFilePath sample_env (fileinfo ?rc) = ''mods/c.jar''"
    by (simp_all add: sample_env_def sample_resource_def)
  have rd: "readFile sample_env (fileinfo sample_resource) = FileContents ''bytes of a'' 10"
    "readFile sample_env (fileinfo ?rc) = OpenFailed"
    by (simp_all add: sample_env_def sample_resource_def)
  have hd: "hash_data sample_env ''bytes of a'' Sha512 = ''sha512:bytes of a''"
    by (simp add: sample_env_def sample_hash_def)
  have rs: "concat (map m_resources (resourceLists (inst ?s0))) = [?rc, sample_resource]"
    "concat (map m_resources (resourceLists (inst ?s1))) = [?rc, sample_resource]"
    by simp_all
  have relc: "relativeFilePath sample_env ''/game/mods/c.jar'' = ''mods/c.jar''"
    by (simp add: sample_env_def)
  have ne: "?rc \<noteq> sample_resource"
    by (simp add: sample_resource_def)
  have s: "resolvedFiles ?s0 = []" "task_state ?s0 = Running" "\<not> filter_fn ?s0 p"
    "resolvedFiles ?s1 = []" "filter_fn ?s1 p" for p
    by (simp_all add: sample_task_def)
  have mem_a: "sample_resource \<in> set (concat (map m_resources (resourceLists (inst ?s0))))
    \<and> (\<forall>r \<in> set (concat (map m_resources (resourceLists (inst ?s0)))).
          relativeFilePath sample_env (fileinfo r) =
            relativeFilePath sample_env (fileinfo sample_resource) \<longrightarrow> r = sample_resource)"
    unfolding rs by (simp add: rel relc)
  have mem_c: "?rc \<in> set (concat (map m_resources (resourceLists (inst ?s0))))
    \<and> (\<forall>r \<in> set (concat (map m_resources (resourceLists (inst ?s0)))).
          relativeFilePath sample_env (fileinfo r) =
            relativeFilePath sample_env (fileinfo ?rc) \<longrightarrow> r = ?rc)"
    unfolding rs by (simp add: rel relc)
  have mem_f: "sample_resource \<in> set (concat (map m_resources (resourceLists (inst ?s1))))
    \<and> (\<forall>r \<in> set (concat (map m_resources (resourceLists (inst ?s1)))).
          relativeFilePath sample_env (fileinfo r) =
            relativeFilePath sample_env (fileinfo sample_resource) \<longrightarrow> r = sample_resource)"
    unfolding rs by (simp add: rel relc)
  note Ta = collectHashes_reuse [OF m(1) u h, of "\<lambda>p. True" "[]" "[]" ?s0]
  note Tc = collectHashes_reuse [OF m(2) u h, of "\<lambda>p. False" "[]" "[]" ?s0]
  note Tf = collectHashes_reuse [OF m(1) u h, of "\<lambda>p. True" "[]" "[]" ?s1]
  from Ta mem_a s(3) rd(1)
  have "map_of (resolvedFiles (collectHashes sample_env ?s0))
          (relativeFilePath sample_env (fileinfo sample_resource)) =
        Some \<lparr>sha1 = (if hash_format ?md = ''sha1'' \<and> hash ?md \<noteq> [] then hash ?md
                      else hash_data sample_env ''bytes of a'' Sha1),
              sha512 = (if hash_format ?md = ''sha512'' \<and> hash ?md \<noteq> [] then hash ?md
                        else hash_data sample_env ''bytes of a'' Sha512),
              file_url = url_encoded (url ?md), file_size = 10, file_side = side ?md\<rparr>"
    by blast
  then have 1: "map_of (resolvedFiles (collectHashes sample_env ?s0)) ''mods/a.jar.disabled'' =
     Some \<lparr>sha1 = ''declared-sha1-of-a'', sha512 = ''sha512:bytes of a'',
           file_url = ''https://cdn.modrinth.com/data/a.jar'', file_size = 10,
           file_side = ClientSide\<rparr>"
    unfolding rel hd by simp
  from Tc mem_c s(3) rd(2)
  have "map_of (resolvedFiles (collectHashes sample_env ?s0))
          (relativeFilePath sample_env (fileinfo ?rc)) =
        map_of (resolvedFiles ?s0) (relativeFilePath sample_env (fileinfo ?rc))"
    by blast
  then have 2: "map_of (resolvedFiles (collectHashes sample_env ?s0)) ''mods/c.jar'' = None"
    unfolding rel s(1) by simp
  from Ta mem_a s(2) have 3: "task_state (collectHashes sample_env ?s0) = Running"
    by metis
  from Tf mem_f s(5)
  have "map_of (resolvedFiles (collectHashes sample_env ?s1))
          (relativeFilePath sample_env (fileinfo sample_resource)) =
        map_of (resolvedFiles ?s1) (relativeFilePath sample_env (fileinfo sample_resource))"
    by blast
  then have 4: "map_of (resolvedFiles (collectHashes sample_env ?s1)) ''mods/a.jar.disabled'' = None"
    unfolding rel s(4) by simp
  from Tc rd(2) have 5: "resolveFromIndex sample_env (\<lambda>p. False) ?rc [] = []"
    by blast
  from Ta have 6: "resolveFromIndex sample_env (\<lambda>p. True) sample_resource [] = []"
    by blast
  from 1 2 3 4 5 6 show ?thesis by blast
qed

text \<open>
  The claim as the specification words it fails for a resource that the filter of the
  export excludes: its metadata has an allowed host and declares a hash, its file can be
  read, and yet nothing is resolved for it, by the loop body and by the whole stage. It
  fails as well for a declared hash that is empty: the hash of the bytes is taken.
\<close>

theorem resolveFromIndex_filter_counterexample:
  "(\<exists>md. metadata sample_resource = Some md
       \<and> \<not> url_isEmpty (url md)
       \<and> url_host (url md) \<in> set (MODRINTH_MRPACK_HOSTS sample_env)
       \<and> hash_format md = ''sha1'' \<and> hash md = ''declared-sha1-of-a'')
   \<and> readFile sample_env (fileinfo sample_resource) = FileContents ''bytes of a'' 10
   \<and> resolveFromIndex sample_env (\<lambda>p. p = ''mods/a.jar.disabled'') sample_resource [] = []
   \<and> resolvedFiles (collectFiles sample_env (sample_task (\<lambda>p. p = ''mods/a.jar.disabled''))) = []
   \<and> map_of (resolveFromIndex sample_env (\<lambda>p. False)
        (sample_resource\<lparr>metadata :=
           Some \<lparr>url = \<lparr>url_host = ''cdn.modrinth.com'',
                         url_encoded = ''https://cdn.modrinth.com/data/a.jar''\<rparr>,
                 hash = [], hash_format = ''sha1'', side = ClientSide\<rparr>\<rparr>) [])
        ''mods/a.jar.disabled'' =
       Some \<lparr>sha1 = ''sha1:bytes of a'', sha512 = ''sha512:bytes of a'',
             file_url = ''https://cdn.modrinth.com/data/a.jar'', file_size = 10,
             file_side = ClientSide\<rparr>"
proof -
  have a: "\<exists>md. metadata sample_resource = Some md
       \<and> \<not> url_isEmpty (url md)
       \<and> url_host (url md) \<in> set (MODRINTH_MRPACK_HOSTS sample_env)
       \<and> hash_format md = ''sha1'' \<and> hash md = ''declared-sha1-of-a''"
    by (simp add: sample_resource_def sample_env_def url_isEmpty_def)
  have b: "readFile sample_env (fileinfo sample_resource) = FileContents ''bytes of a'' 10"
    by (simp add: sample_env_def sample_resource_def)
  have c: "resolveFromIndex sample_env (\<lambda>p. p = ''mods/a.jar.disabled'') sample_resource [] = []"
    by (simp add: resolveFromIndex_def sample_env_def sample_resource_def url_isEmpty_def)
  have d: "resolvedFiles (collectFiles sample_env (sample_task (\<lambda>p. p = ''mods/a.jar.disabled''))) = []"
    by code_simp
  have e: "map_of (resolveFromIndex sample_env (\<lambda>p. False)
        (sample_resource\<lparr>metadata :=
           Some \<lparr>url = \<lparr>url_host = ''cdn.modrinth.com'',
                         url_encoded = ''https://cdn.modrinth.com/data/a.jar''\<rparr>,
                 hash = [], hash_format = ''sha1'', side = ClientSide\<rparr>\<rparr>) [])
        ''mods/a.jar.disabled'' =
       Some \<lparr>sha1 = ''sha1:bytes of a'', sha512 = ''sha512:bytes of a'',
             file_url = ''https://cdn.modrinth.com/data/a.jar'', file_size = 10,
             file_side = ClientSide\<rparr>"
    by (simp add: resolveFromIndex_def sample_env_def sample_resource_def url_isEmpty_def
        sample_hash_def)
  from a b c d e show ?thesis by blast
qed

end
